theory Spec2Isabelle
  imports Complex_Main "HOL-Library.Mapping" "HOL-Library.Char_ord" "HOL-Library.List_Lexorder"
begin


section \<open>The rollup aggregator (src/agg/rollup.cpp)\<close>

text \<open>
  Timestamps, metric ids and series ids are unsigned integers of the source; their
  declarations are in headers that are not part of the sources at hand. They are modelled
  as natural numbers, as is the counter \<open>m_cnt\<close>, and the model does not cover an
  overflow of the arithmetic on them. Values are the doubles of the source, modelled as reals: \<open>std::min\<close>
  and \<open>std::max\<close> are exact on them, the sum is exact as long as no rounding occurs.
\<close>

type_synonym Timestamp = nat
type_synonym MetricId = nat
type_synonym TimeSeriesId = nat

text \<open>
  Modelled from the spec: the macro \<open>TT_INVALID_TIMESTAMP\<close> is declared in a header that is
  not under src/. The spec calls it \<open>INVALID\<close>, the value of the bucket timestamp before
  the first datapoint; it is taken to be the largest 64-bit value, which no bucket start
  of a datapoint in seconds reaches.
\<close>

definition TT_INVALID_TIMESTAMP :: Timestamp where
  "TT_INVALID_TIMESTAMP = 2 ^ 64 - 1"

text \<open>
  What the aggregator reads of a \<open>Tsdb\<close>: its rollup interval and the bounds, in seconds,
  of its time range. \<open>tsdb_id\<close> tells two files apart, as the pointer does in the source.
\<close>

record Tsdb =
  tsdb_id :: nat
  get_rollup_interval :: Timestamp
  get_from_sec :: Timestamp
  get_to_sec :: Timestamp

text \<open>
  One call of \<open>Tsdb::add_rollup_point(mid, tid, cnt, min, max, sum)\<close>. The source
  does not pass the bucket start; \<open>rp_tstamp\<close> records the value \<open>m_tstamp\<close> had when
  the call was made, so that claims about bucket starts can be stated.
\<close>

record rollup_point =
  rp_tsdb :: Tsdb
  rp_mid :: MetricId
  rp_tid :: TimeSeriesId
  rp_tstamp :: Timestamp
  rp_cnt :: nat
  rp_min :: real
  rp_max :: real
  rp_sum :: real

text \<open>
  The fields of \<open>RollupManager\<close>, and in \<open>rollup_points\<close> the calls of
  \<open>add_rollup_point\<close> made so far, oldest first.
\<close>

record RollupManager =
  m_cnt :: nat
  m_min :: real
  m_max :: real
  m_sum :: real
  m_tsdb :: "Tsdb option"
  m_tstamp :: Timestamp
  rollup_points :: "rollup_point list"

text \<open>
  How a call of the source ends when it does not return: a failed \<open>ASSERT\<close>, a null
  pointer dereferenced, or the \<open>std::range_error\<close> that \<open>open_mmap\<close> throws.
\<close>

datatype tt_error = AssertionFailed | NullPointer | RangeError

text \<open>The constructor \<open>RollupManager::RollupManager\<close>.\<close>

definition RollupManager_new :: RollupManager where
  "RollupManager_new =
     \<lparr>m_cnt = 0, m_min = 0, m_max = 0, m_sum = 0, m_tsdb = None,
      m_tstamp = TT_INVALID_TIMESTAMP, rollup_points = []\<rparr>"

text \<open>
  \<open>RollupManager::flush\<close>: nothing when no bucket is open; otherwise the accumulators go
  to \<open>m_tsdb->add_rollup_point\<close> and are reset. Dereferencing a null \<open>m_tsdb\<close> is the
  error \<open>NullPointer\<close>.
\<close>

definition RollupManager_flush ::
  "MetricId \<Rightarrow> TimeSeriesId \<Rightarrow> RollupManager \<Rightarrow> tt_error + RollupManager" where
  "RollupManager_flush mid tid s =
     (if m_tstamp s = TT_INVALID_TIMESTAMP then Inr s
      else case m_tsdb s of
        None \<Rightarrow> Inl NullPointer
      | Some t \<Rightarrow>
          Inr (s\<lparr>rollup_points := rollup_points s @
                    [\<lparr>rp_tsdb = t, rp_mid = mid, rp_tid = tid, rp_tstamp = m_tstamp s,
                      rp_cnt = m_cnt s, rp_min = m_min s, rp_max = m_max s,
                      rp_sum = m_sum s\<rparr>],
                  m_cnt := 0, m_min := 0, m_max := 0, m_sum := 0\<rparr>))"

text \<open>
  The first loop of \<open>add_data_point\<close> (line 68), after its initialisation
  \<open>m_tstamp += interval\<close>:
  \<^verbatim>\<open>for (...; (m_tstamp < end) && (m_tstamp < tstamp); m_tstamp += interval) flush(mid, tid);\<close>
  A loop that does not end has the value \<open>None\<close>.
\<close>

partial_function (option) fill_until_end ::
  "MetricId \<Rightarrow> TimeSeriesId \<Rightarrow> Timestamp \<Rightarrow> Timestamp \<Rightarrow> Timestamp \<Rightarrow> RollupManager
     \<Rightarrow> (tt_error + RollupManager) option" where
  "fill_until_end mid tid interval end tstamp s =
     (if m_tstamp s < end \<and> m_tstamp s < tstamp then
        (case RollupManager_flush mid tid s of
           Inl e \<Rightarrow> Some (Inl e)
         | Inr s' \<Rightarrow>
             fill_until_end mid tid interval end tstamp
               (s'\<lparr>m_tstamp := m_tstamp s' + interval\<rparr>))
      else Some (Inr s))"

text \<open>
  The second loop (line 76), after its initialisation \<open>m_tstamp = from_sec\<close>:
  \<^verbatim>\<open>for (...; m_tstamp < tstamp; m_tstamp += interval) flush(mid, tid);\<close>
\<close>

partial_function (option) fill_from_start ::
  "MetricId \<Rightarrow> TimeSeriesId \<Rightarrow> Timestamp \<Rightarrow> Timestamp \<Rightarrow> RollupManager
     \<Rightarrow> (tt_error + RollupManager) option" where
  "fill_from_start mid tid interval tstamp s =
     (if m_tstamp s < tstamp then
        (case RollupManager_flush mid tid s of
           Inl e \<Rightarrow> Some (Inl e)
         | Inr s' \<Rightarrow>
             fill_from_start mid tid interval tstamp
               (s'\<lparr>m_tstamp := m_tstamp s' + interval\<rparr>))
      else Some (Inr s))"

text \<open>
  Lines 81 to 84 of \<open>add_data_point\<close>. The third assignment reads \<open>m_min\<close> after the
  second has written it.
\<close>

definition accumulate :: "real \<Rightarrow> RollupManager \<Rightarrow> RollupManager" where
  "accumulate v s =
     (let s1 = s\<lparr>m_cnt := m_cnt s + 1\<rparr>;
          s2 = s1\<lparr>m_min := min (m_min s1) v\<rparr>;
          s3 = s2\<lparr>m_max := max (m_min s2) v\<rparr>
      in s3\<lparr>m_sum := m_sum s3 + v\<rparr>)"

text \<open>
  Lines 62 to 79: the block run when the datapoint's bucket \<open>tstamp\<close> differs from
  \<open>m_tstamp\<close>. \<open>cur\<close> is the file \<open>m_tsdb\<close> points to, \<open>tsdb\<close> the argument of the call.
\<close>

definition advance_bucket ::
  "Tsdb \<Rightarrow> Tsdb \<Rightarrow> MetricId \<Rightarrow> TimeSeriesId \<Rightarrow> Timestamp \<Rightarrow> Timestamp \<Rightarrow> RollupManager
     \<Rightarrow> (tt_error + RollupManager) option" where
  "advance_bucket cur tsdb mid tid interval tstamp s =
     (case RollupManager_flush mid tid s of
        Inl e \<Rightarrow> Some (Inl e)
      | Inr s1 \<Rightarrow>
          (let end = get_to_sec cur in
           case fill_until_end mid tid interval end tstamp
                  (s1\<lparr>m_tstamp := m_tstamp s1 + interval\<rparr>) of
             None \<Rightarrow> None
           | Some (Inl e) \<Rightarrow> Some (Inl e)
           | Some (Inr s2) \<Rightarrow>
               if m_tstamp s2 \<ge> end then
                 fill_from_start mid tid (get_rollup_interval tsdb) tstamp
                   (s2\<lparr>m_tsdb := Some tsdb, m_tstamp := get_from_sec tsdb\<rparr>)
               else Some (Inr s2)))"

text \<open>
  \<open>RollupManager::add_data_point\<close>. The datapoint is given by its timestamp in seconds,
  the value of \<open>to_sec(dp.get_timestamp())\<close>, and its value. The argument \<open>tsdb\<close> is not
  null, as the first assertion asks. The assertion \<open>interval > 0\<close> guards the division
  of the next line; its failure is the error \<open>AssertionFailed\<close>.
\<close>

definition RollupManager_add_data_point ::
  "Tsdb \<Rightarrow> MetricId \<Rightarrow> TimeSeriesId \<Rightarrow> Timestamp \<times> real \<Rightarrow> RollupManager
     \<Rightarrow> (tt_error + RollupManager) option" where
  "RollupManager_add_data_point tsdb mid tid dp s =
     (let cur = (case m_tsdb s of None \<Rightarrow> tsdb | Some t \<Rightarrow> t);
          s1 = s\<lparr>m_tsdb := Some cur\<rparr>;
          interval = get_rollup_interval cur;
          v = snd dp
      in if interval = 0 then Some (Inl AssertionFailed)
         else
           let tstamp = fst dp - fst dp mod interval;
               s2 = (if m_tstamp s1 = TT_INVALID_TIMESTAMP then s1\<lparr>m_tstamp := tstamp\<rparr> else s1)
           in if tstamp \<noteq> m_tstamp s2 then
                (case advance_bucket cur tsdb mid tid interval tstamp s2 of
                   None \<Rightarrow> None
                 | Some (Inl e) \<Rightarrow> Some (Inl e)
                 | Some (Inr s3) \<Rightarrow> Some (Inr (accumulate v s3)))
              else Some (Inr (accumulate v s2)))"

subsection \<open>Vocabulary for the claims about the aggregator\<close>

text \<open>The call of \<open>add_rollup_point\<close> that an empty bucket at \<open>ts\<close> gives: \<open>(0,0,0,0)\<close>.\<close>

definition empty_point :: "Tsdb \<Rightarrow> MetricId \<Rightarrow> TimeSeriesId \<Rightarrow> Timestamp \<Rightarrow> rollup_point" where
  "empty_point t mid tid ts =
     \<lparr>rp_tsdb = t, rp_mid = mid, rp_tid = tid, rp_tstamp = ts,
      rp_cnt = 0, rp_min = 0, rp_max = 0, rp_sum = 0\<rparr>"

text \<open>
  The timestamps \<open>a, a + step, a + 2 * step, ...\<close> that are below \<open>bound\<close>, and how many
  they are: \<open>\<lceil>(bound - a) / step\<rceil>\<close>, none when \<open>bound \<le> a\<close>.
\<close>

definition bucket_count :: "Timestamp \<Rightarrow> Timestamp \<Rightarrow> Timestamp \<Rightarrow> nat" where
  "bucket_count a step bound = (bound - a + step - 1) div step"

definition bucket_starts :: "Timestamp \<Rightarrow> Timestamp \<Rightarrow> Timestamp \<Rightarrow> Timestamp list" where
  "bucket_starts a step bound = map (\<lambda>k. a + k * step) [0..<bucket_count a step bound]"

definition accumulators_reset :: "RollupManager \<Rightarrow> bool" where
  "accumulators_reset s \<longleftrightarrow> m_cnt s = 0 \<and> m_min s = 0 \<and> m_max s = 0 \<and> m_sum s = 0"

text \<open>The call of \<open>add_rollup_point\<close> that flushing the accumulators of \<open>s\<close> gives.\<close>

definition flushed_point :: "Tsdb \<Rightarrow> MetricId \<Rightarrow> TimeSeriesId \<Rightarrow> RollupManager \<Rightarrow> rollup_point" where
  "flushed_point t mid tid s =
     \<lparr>rp_tsdb = t, rp_mid = mid, rp_tid = tid, rp_tstamp = m_tstamp s,
      rp_cnt = m_cnt s, rp_min = m_min s, rp_max = m_max s, rp_sum = m_sum s\<rparr>"

text \<open>
  The states of an aggregator that its constructor, \<open>add_data_point\<close> and \<open>flush\<close> can
  produce.
\<close>

inductive reachable :: "RollupManager \<Rightarrow> bool" where
  reachable_new: "reachable RollupManager_new"
| reachable_add:
    "reachable s \<Longrightarrow> RollupManager_add_data_point tsdb mid tid dp s = Some (Inr s') \<Longrightarrow>
       reachable s'"
| reachable_flush:
    "reachable s \<Longrightarrow> RollupManager_flush mid tid s = Inr s' \<Longrightarrow> reachable s'"

definition mins_at_most_zero :: "RollupManager \<Rightarrow> bool" where
  "mins_at_most_zero s \<longleftrightarrow> m_min s \<le> 0 \<and> (\<forall>p \<in> set (rollup_points s). rp_min p \<le> 0)"

text \<open>A bucket into which nothing has been accumulated has its min accumulator at 0.\<close>

definition empty_bucket_min_zero :: "RollupManager \<Rightarrow> bool" where
  "empty_bucket_min_zero s \<longleftrightarrow> (m_cnt s = 0 \<longrightarrow> m_min s = 0)"

text \<open>Two files with a rollup interval of 10 seconds, covering \<open>[0,100)\<close> and \<open>[100,200)\<close>.\<close>

definition file_0_100 :: Tsdb where
  "file_0_100 = \<lparr>tsdb_id = 1, get_rollup_interval = 10, get_from_sec = 0, get_to_sec = 100\<rparr>"

definition file_100_200 :: Tsdb where
  "file_100_200 = \<lparr>tsdb_id = 2, get_rollup_interval = 10, get_from_sec = 100, get_to_sec = 200\<rparr>"

section \<open>The configuration store (src/utils/config.cpp)\<close>

text \<open>
  Modelled from the spec: the class \<open>Property\<close> is declared in a header that is not under
  src/. It is taken as a name and a value, both strings: the constructor stores them,
  \<open>set_value\<close> replaces the value and \<open>as_str\<close> returns it.
\<close>

record Property =
  get_name :: string
  as_str :: string

definition Property_new :: "string \<Rightarrow> string \<Rightarrow> Property" where
  "Property_new name v = \<lparr>get_name = name, as_str = v\<rparr>"

definition Property_set_value :: "string \<Rightarrow> Property \<Rightarrow> Property" where
  "Property_set_value v p = p\<lparr>as_str := v\<rparr>"

text \<open>
  The two static maps of \<open>Config\<close>. A \<open>std::map\<close> has unique keys and is walked in the
  order of its keys, as \<open>Mapping.ordered_entries\<close> walks a mapping. The maps hold shared
  pointers; no \<open>Property\<close> object is held by both maps, so that each map is modelled with
  the objects as its values.
\<close>

record Config =
  m_properties :: "(string, Property) mapping"
  m_overrides :: "(string, Property) mapping"

datatype config_error = IosFailure

definition get_property :: "string \<Rightarrow> Config \<Rightarrow> Property option" where
  "get_property name c = Mapping.lookup (m_properties c) name"

definition get_override :: "string \<Rightarrow> Config \<Rightarrow> Property option" where
  "get_override name c = Mapping.lookup (m_overrides c) name"

definition set_value_no_lock :: "string \<Rightarrow> string \<Rightarrow> Config \<Rightarrow> Config" where
  "set_value_no_lock name v c =
     (case get_property name c of
        None \<Rightarrow> c\<lparr>m_properties := Mapping.update name (Property_new name v) (m_properties c)\<rparr>
      | Some property \<Rightarrow>
          c\<lparr>m_properties := Mapping.update name (Property_set_value v property) (m_properties c)\<rparr>)"

definition add_override :: "string \<Rightarrow> string \<Rightarrow> Config \<Rightarrow> Config" where
  "add_override name v c =
     (case Mapping.lookup (m_overrides c) name of
        None \<Rightarrow> c\<lparr>m_overrides := Mapping.update name (Property_new name v) (m_overrides c)\<rparr>
      | Some property \<Rightarrow>
          c\<lparr>m_overrides := Mapping.update name (Property_set_value v property) (m_overrides c)\<rparr>)"

text \<open>
  The body of the loop over the lines of the config file (lines 78 to 86). The helpers
  \<open>starts_with\<close> and \<open>tokenize\<close> are not under src/; they are parameters of the model,
  \<open>tokenize\<close> giving the pair it stores in \<open>kv\<close>, or \<open>None\<close> where it returns false.
\<close>

definition read_line ::
  "(string \<Rightarrow> char \<Rightarrow> bool) \<Rightarrow> (string \<Rightarrow> char \<Rightarrow> (string \<times> string) option) \<Rightarrow>
     string \<Rightarrow> Config \<Rightarrow> Config" where
  "read_line starts_with tokenize line c =
     (if starts_with line (CHR '';'') then c
      else if starts_with line (CHR ''#'') then c
      else case tokenize line (CHR ''='') of
        None \<Rightarrow> c
      | Some (key, v) \<Rightarrow> set_value_no_lock key v c)"

text \<open>
  \<open>Config::reload\<close>. The file is given by its lines, \<open>None\<close> when it cannot be opened;
  the exception then thrown leaves the properties cleared. A reload that goes through
  returns \<open>false\<close>.
\<close>

definition Config_reload ::
  "(string \<Rightarrow> char \<Rightarrow> bool) \<Rightarrow> (string \<Rightarrow> char \<Rightarrow> (string \<times> string) option) \<Rightarrow>
     string list option \<Rightarrow> Config \<Rightarrow> (config_error + bool) \<times> Config" where
  "Config_reload starts_with tokenize file c =
     (let c1 = c\<lparr>m_properties := Mapping.empty\<rparr> in
      case file of
        None \<Rightarrow> (Inl IosFailure, c1)
      | Some lines \<Rightarrow>
          (let c2 = fold (read_line starts_with tokenize) lines c1;
               c3 = fold (\<lambda>(name, property). set_value_no_lock name (as_str property))
                      (Mapping.ordered_entries (m_overrides c2)) c2
           in (Inr False, c3)))"

text \<open>The two maps as the static initialisation leaves them: empty.\<close>

definition Config_static :: Config where
  "Config_static = \<lparr>m_properties = Mapping.empty, m_overrides = Mapping.empty\<rparr>"

section \<open>Pages and the page manager (src/core/page.cpp)\<close>

text \<open>
  \<open>PageCount\<close> and \<open>PageSize\<close> are unsigned integers declared in a header that is not
  under src/; they are modelled as natural numbers. Where the source can wrap around, in
  the recovery loop, the model says so.
\<close>

type_synonym PageCount = nat
type_synonym PageSize = nat

text \<open>
  Modelled from the spec: the class \<open>TimeRange\<close> is not under src/. The spec has it as
  the half-open interval from \<open>get_from\<close> to \<open>get_to\<close>; \<open>init\<close> sets the two bounds,
  and a range contains another when it starts no later and ends no earlier.
\<close>

record TimeRange =
  get_from :: Timestamp
  get_to :: Timestamp

definition TimeRange_init :: "Timestamp \<Rightarrow> Timestamp \<Rightarrow> TimeRange" where
  "TimeRange_init from to = \<lparr>get_from = from, get_to = to\<rparr>"

definition contains :: "TimeRange \<Rightarrow> TimeRange \<Rightarrow> bool" where
  "contains outer inner \<longleftrightarrow> get_from outer \<le> get_from inner \<and> get_to inner \<le> get_to outer"

text \<open>
  \<open>struct page_info_on_disk\<close>, one header of the page-info table. Its fields carry the
  prefix \<open>piod\<close> because \<open>tsdb_header\<close> has an \<open>m_page_index\<close> of its own. The two
  flags are the bits \<open>is_full\<close> and \<open>is_out_of_order\<close>.
\<close>

record page_info_on_disk =
  piod_page_index :: PageCount
  piod_offset :: PageSize
  piod_size :: PageSize
  piod_cursor :: nat
  piod_start :: nat
  piod_full :: bool
  piod_out_of_order :: bool
  piod_tstamp_from :: nat
  piod_tstamp_to :: nat

text \<open>A header as \<open>memset\<close> with 0, or a file just extended, leaves it.\<close>

definition zero_page_info :: page_info_on_disk where
  "zero_page_info =
     \<lparr>piod_page_index = 0, piod_offset = 0, piod_size = 0, piod_cursor = 0, piod_start = 0,
      piod_full = False, piod_out_of_order = False, piod_tstamp_from = 0, piod_tstamp_to = 0\<rparr>"

text \<open>
  The mapped file: the fields of \<open>struct tsdb_header\<close> followed by the page-info table.
  The members \<open>m_page_count\<close>, \<open>m_page_index\<close>, \<open>m_header_index\<close> and
  \<open>m_actual_pg_cnt\<close> of \<open>PageManager\<close> point at the header fields of these names, so
  that \<open>*m_page_index\<close> of the source is \<open>m_page_index\<close> of the mapped file. The other
  header fields carry the prefix \<open>h\<close>, \<open>PageManager\<close> having members of the same names.
\<close>

record tsdb_file =
  h_major_version :: nat
  h_minor_version :: nat
  h_start_tstamp :: Timestamp
  h_end_tstamp :: Timestamp
  h_compacted :: bool
  h_compressor_version :: nat
  h_millisecond :: bool
  m_page_count :: PageCount
  m_page_index :: PageCount
  m_header_index :: PageCount
  m_actual_pg_cnt :: PageCount
  m_page_info :: "page_info_on_disk list"

text \<open>
  What the source takes from outside page.cpp: the globals \<open>g_page_size\<close> and
  \<open>g_tstamp_resolution_ms\<close>, the version macros, the sizes of the two structs, and
  \<open>page_info_on_disk::init(range)\<close>, whose body is in a header that is not under src/.
\<close>

record globals =
  g_page_size :: PageSize
  g_tstamp_resolution_ms :: bool
  TT_MAJOR_VERSION :: nat
  TT_MINOR_VERSION :: nat
  sizeof_tsdb_header :: nat
  sizeof_page_info_on_disk :: nat
  page_info_init :: "TimeRange \<Rightarrow> page_info_on_disk \<Rightarrow> page_info_on_disk"

text \<open>
  The members of \<open>PageManager\<close>. \<open>m_pages\<close> is the mapping, \<open>None\<close> for the null
  pointer.
\<close>

record PageManager =
  m_major_version :: nat
  m_minor_version :: nat
  m_compacted :: bool
  m_time_range :: TimeRange
  m_id :: PageCount
  m_compressor_version :: nat
  m_total_size :: nat
  m_pages :: "tsdb_file option"

text \<open>
  Modelled from the spec: the class \<open>Compressor\<close> is not under src/. The model keeps of a
  compressor its version and what \<open>init\<close> is given: the base timestamp, the offset of its
  buffer from the first page, and the size of the buffer.
\<close>

record Compressor =
  get_version :: nat
  comp_start :: Timestamp
  comp_page :: nat
  comp_size :: PageSize

text \<open>
  The members of \<open>PageInfo\<close>. \<open>m_header\<close> points into the page-info table: it is the
  index of the header there. \<open>m_page_mgr\<close> is the \<open>m_id\<close> of the manager pointed to.
  The time range carries a suffix, \<open>PageManager\<close> having an \<open>m_time_range\<close> too.
\<close>

record PageInfo =
  m_page_mgr :: "PageCount option"
  m_compressor :: "Compressor option"
  m_header :: "PageCount option"
  m_time_range_info :: TimeRange

text \<open>
  Modelled from the spec: \<open>MemoryManager::alloc_recyclable\<close> is not under src/. The spec
  (4.5) has it return a zeroed object, so that the branch \<open>info == nullptr\<close> of the two
  allocation functions is not taken.
\<close>

definition alloc_recyclable_page_info :: PageInfo where
  "alloc_recyclable_page_info =
     \<lparr>m_page_mgr = None, m_compressor = None, m_header = None,
      m_time_range_info = TimeRange_init 0 0\<rparr>"

text \<open>
  \<open>PageManager::calc_first_page_info_index\<close>. The source divides in double precision and
  rounds up with \<open>std::ceil\<close>; for sizes below \<open>2^53\<close> that is the ceiling of the exact
  quotient, which the model computes on the integers.
\<close>

definition calc_first_page_info_index :: "globals \<Rightarrow> PageCount \<Rightarrow> PageCount" where
  "calc_first_page_info_index g page_count =
     (page_count * sizeof_page_info_on_disk g + sizeof_tsdb_header g + g_page_size g - 1)
       div g_page_size g"

text \<open>
  \<open>PageManager::get_page_info_on_disk\<close>: the header at \<open>index\<close>, the assertion
  \<open>index < *m_page_count\<close> failing otherwise. An index outside the table fails as well.
\<close>

definition get_page_info_on_disk :: "tsdb_file \<Rightarrow> PageCount \<Rightarrow> tt_error + page_info_on_disk" where
  "get_page_info_on_disk f index =
     (if index < m_page_count f \<and> index < length (m_page_info f) then Inr (m_page_info f ! index)
      else Inl AssertionFailed)"

text \<open>What the file looks like to \<open>open_mmap\<close>: absent, or present with its size and content.\<close>

datatype disk = NoFile | File nat tsdb_file

text \<open>
  \<open>PageManager::open_mmap\<close>, the system calls taken to succeed. A file of size 0 is
  mapped as zeros and gets its header written (lines 506 to 520); of a file with content
  the versions and flags are checked (lines 521 to 554). \<open>Logger::fatal\<close> and
  \<open>Logger::warn\<close> only log. The result is \<open>is_new\<close> and the manager.
\<close>

definition open_mmap ::
  "globals \<Rightarrow> PageCount \<Rightarrow> disk \<Rightarrow> PageManager \<Rightarrow> tt_error + bool \<times> PageManager" where
  "open_mmap g page_count d pm =
     (let is_new = (d = NoFile);
          st_size = (case d of NoFile \<Rightarrow> 0 | File n _ \<Rightarrow> n);
          pm1 = (if 0 \<noteq> st_size \<and> m_total_size pm \<noteq> st_size
                 then pm\<lparr>m_total_size := st_size\<rparr> else pm)
      in case d of
           File n header \<Rightarrow>
             if n \<noteq> 0 then
               (let pm2 = (if m_compressor_version pm1 \<noteq> h_compressor_version header
                           then pm1\<lparr>m_compressor_version := h_compressor_version header\<rparr>
                           else pm1)
                in if g_tstamp_resolution_ms g \<noteq> h_millisecond header then Inl RangeError
                   else Inr (is_new,
                          pm2\<lparr>m_compacted := h_compacted header,
                              m_total_size := m_actual_pg_cnt header * g_page_size g,
                              m_pages := Some header\<rparr>))
             else
               Inr (is_new,
                 pm1\<lparr>m_pages := Some
                   \<lparr>h_major_version = m_major_version pm1,
                    h_minor_version = m_minor_version pm1,
                    h_start_tstamp = get_from (m_time_range pm1),
                    h_end_tstamp = get_to (m_time_range pm1),
                    h_compacted = m_compacted pm1,
                    h_compressor_version = m_compressor_version pm1,
                    h_millisecond = g_tstamp_resolution_ms g,
                    m_page_count = page_count,
                    m_page_index = calc_first_page_info_index g page_count,
                    m_header_index = 0,
                    m_actual_pg_cnt = page_count,
                    m_page_info = replicate page_count zero_page_info\<rparr>\<rparr>)
         | NoFile \<Rightarrow>
             Inr (is_new,
               pm1\<lparr>m_pages := Some
                 \<lparr>h_major_version = m_major_version pm1,
                  h_minor_version = m_minor_version pm1,
                  h_start_tstamp = get_from (m_time_range pm1),
                  h_end_tstamp = get_to (m_time_range pm1),
                  h_compacted = m_compacted pm1,
                  h_compressor_version = m_compressor_version pm1,
                  h_millisecond = g_tstamp_resolution_ms g,
                  m_page_count = page_count,
                  m_page_index = calc_first_page_info_index g page_count,
                  m_header_index = 0,
                  m_actual_pg_cnt = page_count,
                  m_page_info = replicate page_count zero_page_info\<rparr>\<rparr>))"

text \<open>\<open>PageManager::init_headers\<close>: the page-info table is set to zero.\<close>

definition init_headers :: "PageManager \<Rightarrow> tt_error + PageManager" where
  "init_headers pm =
     (case m_pages pm of
        None \<Rightarrow> Inl AssertionFailed
      | Some f \<Rightarrow>
          Inr (pm\<lparr>m_pages := Some (f\<lparr>m_page_info := replicate (m_page_count f) zero_page_info\<rparr>)\<rparr>))"

text \<open>
  The loop of the constructor (lines 392 to 396) together with the \<open>++id\<close> of line 398;
  the argument is \<open>id\<close> before the decrement, the result \<open>id\<close> after the increment.
  \<^verbatim>\<open>for (id--; id >= first; id--) { info = get_page_info_on_disk(id); if (info->m_page_index != 0) break; }\<close>
  Decrementing 0 wraps around to the largest value of \<open>PageCount\<close>, which is no index of
  the table: the call of \<open>get_page_info_on_disk\<close> fails then.
\<close>

fun last_initialized :: "tsdb_file \<Rightarrow> PageCount \<Rightarrow> PageCount \<Rightarrow> tt_error + PageCount" where
  "last_initialized f first 0 = Inl AssertionFailed"
| "last_initialized f first (Suc idx) =
     (if idx \<ge> first then
        (case get_page_info_on_disk f idx of
           Inl e \<Rightarrow> Inl e
         | Inr info \<Rightarrow>
             if piod_page_index info \<noteq> 0 then Inr (Suc idx)
             else last_initialized f first idx)
      else Inr (Suc idx))"

text \<open>The \<open>else\<close> branch of the constructor (lines 385 to 404), run on a file that existed.\<close>

definition discard_uninitialized :: "globals \<Rightarrow> PageManager \<Rightarrow> tt_error + PageManager" where
  "discard_uninitialized g pm =
     (case m_pages pm of
        None \<Rightarrow> Inl NullPointer
      | Some f \<Rightarrow>
          (let first = calc_first_page_info_index g (m_page_count f) in
           case last_initialized f first (m_page_index f) of
             Inl e \<Rightarrow> Inl e
           | Inr idx \<Rightarrow>
               if idx \<noteq> m_page_index f then Inr (pm\<lparr>m_pages := Some (f\<lparr>m_page_index := idx\<rparr>)\<rparr>)
               else Inr pm))"

text \<open>
  The constructor \<open>PageManager::PageManager\<close>. The two values it reads from the
  configuration, the compressor version and the page count, are arguments.
\<close>

definition PageManager_new ::
  "globals \<Rightarrow> nat \<Rightarrow> PageCount \<Rightarrow> TimeRange \<Rightarrow> PageCount \<Rightarrow> disk \<Rightarrow> tt_error + PageManager" where
  "PageManager_new g compressor_version page_count time_range idx d =
     (let pm = \<lparr>m_major_version = TT_MAJOR_VERSION g, m_minor_version = TT_MINOR_VERSION g,
                m_compacted = False, m_time_range = time_range, m_id = idx,
                m_compressor_version = compressor_version,
                m_total_size = page_count * g_page_size g, m_pages = None\<rparr>
      in case open_mmap g page_count d pm of
           Inl e \<Rightarrow> Inl e
         | Inr (is_new, pm1) \<Rightarrow>
             if is_new then init_headers pm1 else discard_uninitialized g pm1)"

text \<open>
  \<open>PageInfo::init_for_disk\<close>, on the header it is given; the result is the header as
  written and the \<open>PageInfo\<close>, whose time range is the empty one from \<open>to\<close> to \<open>from\<close>.
\<close>

definition init_for_disk ::
  "globals \<Rightarrow> PageManager \<Rightarrow> PageCount \<Rightarrow> page_info_on_disk \<Rightarrow> PageCount \<Rightarrow> PageSize \<Rightarrow> bool \<Rightarrow>
     PageInfo \<Rightarrow> tt_error + page_info_on_disk \<times> PageInfo" where
  "init_for_disk g pm header_idx header page_idx sz is_ooo info =
     (if \<not> sz > 1 then Inl AssertionFailed
      else
        let time_range = m_time_range pm;
            header1 = page_info_init g time_range header;
            header2 = header1\<lparr>piod_out_of_order := is_ooo\<rparr>;
            header3 = header2\<lparr>piod_page_index := page_idx, piod_offset := 0, piod_size := sz\<rparr>
        in if piod_size header3 = 0 then Inl AssertionFailed
           else Inr (header3,
                  info\<lparr>m_header := Some header_idx,
                       m_time_range_info :=
                         TimeRange_init (get_to time_range) (get_from time_range),
                       m_page_mgr := Some (m_id pm),
                       m_compressor := None\<rparr>))"

text \<open>
  \<open>PageInfo::setup_compressor\<close>, given the header \<open>m_header\<close> points to: an out-of-order
  page gets a compressor of version 0, any other page one of the version asked for. The
  buffer is at \<open>get_page()\<close>, that is at \<open>page_index * g_page_size + offset\<close> from the
  first page.
\<close>

definition setup_compressor ::
  "globals \<Rightarrow> page_info_on_disk \<Rightarrow> TimeRange \<Rightarrow> nat \<Rightarrow> PageInfo \<Rightarrow> PageInfo" where
  "setup_compressor g header time_range compressor_version info =
     info\<lparr>m_compressor := Some
       \<lparr>get_version = (if piod_out_of_order header then 0 else compressor_version),
        comp_start = get_from time_range,
        comp_page = piod_page_index header * g_page_size g + piod_offset header,
        comp_size = piod_size header\<rparr>\<rparr>"

text \<open>
  \<open>PageManager::get_free_page_on_disk\<close>. The result is the \<open>PageInfo\<close>, \<open>None\<close> for
  the null pointer returned when the file is out of pages, and the manager.
\<close>

definition get_free_page_on_disk ::
  "globals \<Rightarrow> bool \<Rightarrow> PageManager \<Rightarrow> tt_error + PageInfo option \<times> PageManager" where
  "get_free_page_on_disk g ooo pm =
     (let info = alloc_recyclable_page_info in
      case m_pages pm of
        None \<Rightarrow> Inl NullPointer
      | Some f \<Rightarrow>
          if m_page_index f < m_actual_pg_cnt f \<and> m_header_index f < m_page_count f then
            (let idx = m_header_index f; page_idx = m_page_index f in
             case get_page_info_on_disk f idx of
               Inl e \<Rightarrow> Inl e
             | Inr header \<Rightarrow>
                 (case init_for_disk g pm idx header page_idx (g_page_size g) ooo info of
                    Inl e \<Rightarrow> Inl e
                  | Inr (header1, info1) \<Rightarrow>
                      (let info2 = setup_compressor g header1 (m_time_range pm)
                                     (if ooo then 0 else m_compressor_version pm) info1
                       in if piod_out_of_order header1 \<noteq> ooo then Inl AssertionFailed
                          else Inr (Some info2,
                                 pm\<lparr>m_pages := Some
                                   (f\<lparr>m_page_info := (m_page_info f)[idx := header1],
                                      m_page_index := m_page_index f + 1,
                                      m_header_index := m_header_index f + 1\<rparr>)\<rparr>))))
          else Inr (None, pm))"

text \<open>
  \<open>PageManager::get_free_page_for_compaction\<close>. After the header at \<open>id\<close> is
  initialised and the two counters are bumped, the header at \<open>id - 1\<close> is read (lines 658
  to 675): with at least 12 bytes left behind it in its page, the new header is moved
  there.
\<close>

definition get_free_page_for_compaction ::
  "globals \<Rightarrow> PageManager \<Rightarrow> tt_error + PageInfo option \<times> PageManager" where
  "get_free_page_for_compaction g pm =
     (let info = alloc_recyclable_page_info in
      case m_pages pm of
        None \<Rightarrow> Inl NullPointer
      | Some f \<Rightarrow>
          if m_page_index f < m_actual_pg_cnt f \<and> m_header_index f < m_page_count f then
            (let idx = m_header_index f; page_idx = m_page_index f in
             case get_page_info_on_disk f idx of
               Inl e \<Rightarrow> Inl e
             | Inr header0 \<Rightarrow>
                 (case init_for_disk g pm idx header0 page_idx (g_page_size g) False info of
                    Inl e \<Rightarrow> Inl e
                  | Inr (header1, info1) \<Rightarrow>
                      (let f1 = f\<lparr>m_page_info := (m_page_info f)[idx := header1],
                                  m_page_index := m_page_index f + 1,
                                  m_header_index := m_header_index f + 1\<rparr>
                       in if idx > 0 then
                            (case get_page_info_on_disk f1 (idx - 1) of
                               Inl e \<Rightarrow> Inl e
                             | Inr header \<Rightarrow>
                                 (let offset = piod_offset header + piod_size header;
                                      header2 =
                                        (if g_page_size g - offset \<ge> 12 then
                                           header1\<lparr>piod_page_index := piod_page_index header,
                                                   piod_offset := offset,
                                                   piod_size := g_page_size g - offset\<rparr>
                                         else
                                           header1\<lparr>piod_page_index := piod_page_index header + 1\<rparr>)
                                  in Inr (Some (setup_compressor g header2 (m_time_range pm)
                                                  (m_compressor_version pm) info1),
                                          pm\<lparr>m_pages := Some
                                            (f1\<lparr>m_page_info := (m_page_info f1)[idx := header2]\<rparr>)\<rparr>)))
                          else
                            Inr (Some (setup_compressor g header1 (m_time_range pm)
                                         (m_compressor_version pm) info1),
                                 pm\<lparr>m_pages := Some f1\<rparr>))))
          else Inr (None, pm))"

text \<open>
  \<open>PageInfo::init_from_disk\<close>, on the header it is given, with its three assertions.
\<close>

definition init_from_disk ::
  "PageManager \<Rightarrow> PageCount \<Rightarrow> page_info_on_disk \<Rightarrow> PageInfo \<Rightarrow> tt_error + PageInfo" where
  "init_from_disk pm header_idx header info =
     (if m_pages pm = None then Inl AssertionFailed
      else
        let start = get_from (m_time_range pm);
            info1 = info\<lparr>m_page_mgr := Some (m_id pm), m_header := Some header_idx,
                         m_compressor := None,
                         m_time_range_info :=
                           TimeRange_init (piod_tstamp_from header + start)
                             (piod_tstamp_to header + start)\<rparr>
        in if contains (m_time_range pm) (m_time_range_info info1) then Inr info1
           else Inl AssertionFailed)"

text \<open>\<open>PageManager::get_the_page_on_disk\<close>: \<open>None\<close> is the null pointer returned.\<close>

definition get_the_page_on_disk :: "PageManager \<Rightarrow> PageCount \<Rightarrow> tt_error + PageInfo option" where
  "get_the_page_on_disk pm header_index =
     (case m_pages pm of
        None \<Rightarrow> Inl AssertionFailed
      | Some f \<Rightarrow>
          if m_page_count f \<le> header_index then Inr None
          else
            (case get_page_info_on_disk f header_index of
               Inl e \<Rightarrow> Inl e
             | Inr header \<Rightarrow>
                 (case init_from_disk pm header_index header alloc_recyclable_page_info of
                    Inl e \<Rightarrow> Inl e
                  | Inr info \<Rightarrow> Inr (Some info))))"

text \<open>
  \<open>PageInfo::add_data_point\<close>. \<open>Compressor::compress\<close> and \<open>TimeRange::add_time\<close> are
  not under src/ and are parameters. The call works on the \<open>PageInfo\<close> and, through its
  compressor, on the mapped pages; the page-info table is passed along to show what
  becomes of it.
\<close>

definition PageInfo_add_data_point ::
  "(Compressor \<Rightarrow> Timestamp \<Rightarrow> real \<Rightarrow> bool \<times> Compressor) \<Rightarrow> (Timestamp \<Rightarrow> TimeRange \<Rightarrow> TimeRange) \<Rightarrow>
     Timestamp \<Rightarrow> real \<Rightarrow> PageInfo \<times> page_info_on_disk list \<Rightarrow>
     bool \<times> PageInfo \<times> page_info_on_disk list" where
  "PageInfo_add_data_point compress add_time tstamp v st =
     (case st of (info, headers) \<Rightarrow>
        (case m_compressor info of
           None \<Rightarrow> (False, info, headers)
         | Some c \<Rightarrow>
             (case compress c tstamp v of (success, c') \<Rightarrow>
                (let info1 = info\<lparr>m_compressor := Some c'\<rparr> in
                 if success then
                   (success,
                    info1\<lparr>m_time_range_info := add_time tstamp (m_time_range_info info1)\<rparr>,
                    headers)
                 else (success, info1, headers)))))"

subsection \<open>Vocabulary and examples for the claims about the page manager\<close>

text \<open>The two inequalities between the counters of a file and their limits.\<close>

definition counters_in_bounds :: "tsdb_file \<Rightarrow> bool" where
  "counters_in_bounds f \<longleftrightarrow>
     m_header_index f \<le> m_page_count f \<and> m_page_index f \<le> m_actual_pg_cnt f"

text \<open>
  An instance of what page.cpp takes from outside, for the examples: pages of 4096
  bytes, a file header of 40 bytes and page headers of 20 bytes, as the layout in the spec
  gives them, and an \<open>init\<close> that clears the header.
\<close>

definition example_globals :: globals where
  "example_globals =
     \<lparr>g_page_size = 4096, g_tstamp_resolution_ms = False, TT_MAJOR_VERSION = 0,
      TT_MINOR_VERSION = 4, sizeof_tsdb_header = 40, sizeof_page_info_on_disk = 20,
      page_info_init = (\<lambda>r h. zero_page_info)\<rparr>"

definition example_range :: TimeRange where
  "example_range = \<lparr>get_from = 0, get_to = 3600\<rparr>"

text \<open>
  A file of four pages under \<open>example_globals\<close>, given by its page-info table and its
  two bump pointers, and the manager that has it mapped.
\<close>

definition example_file :: "page_info_on_disk list \<Rightarrow> PageCount \<Rightarrow> PageCount \<Rightarrow> tsdb_file" where
  "example_file headers page_index header_index =
     \<lparr>h_major_version = 0, h_minor_version = 4, h_start_tstamp = 0, h_end_tstamp = 3600,
      h_compacted = False, h_compressor_version = 1, h_millisecond = False,
      m_page_count = 4, m_page_index = page_index, m_header_index = header_index,
      m_actual_pg_cnt = 4, m_page_info = headers\<rparr>"

definition example_manager ::
  "page_info_on_disk list \<Rightarrow> PageCount \<Rightarrow> PageCount \<Rightarrow> PageManager" where
  "example_manager headers page_index header_index =
     \<lparr>m_major_version = 0, m_minor_version = 4, m_compacted = False,
      m_time_range = example_range, m_id = 0, m_compressor_version = 1,
      m_total_size = 16384,
      m_pages = Some (example_file headers page_index header_index)\<rparr>"

text \<open>
  The header that \<open>get_free_page_on_disk\<close> writes for the physical page \<open>page_idx\<close> of
  such a file, and the \<open>PageInfo\<close> it returns for the header at \<open>header_idx\<close>.
\<close>

definition example_header :: "PageCount \<Rightarrow> page_info_on_disk" where
  "example_header page_idx = zero_page_info\<lparr>piod_page_index := page_idx, piod_size := 4096\<rparr>"

definition example_page_info :: "PageCount \<Rightarrow> PageCount \<Rightarrow> PageInfo" where
  "example_page_info header_idx page_idx =
     \<lparr>m_page_mgr = Some 0,
      m_compressor = Some \<lparr>get_version = 1, comp_start = 0, comp_page = page_idx * 4096,
                           comp_size = 4096\<rparr>,
      m_header = Some header_idx,
      m_time_range_info = \<lparr>get_from = 3600, get_to = 0\<rparr>\<rparr>"

section \<open>Properties of the rollup aggregator\<close>

lemma bucket_count_done: "bound \<le> a \<Longrightarrow> 0 < step \<Longrightarrow> bucket_count a step bound = 0"
  by (simp add: bucket_count_def)

lemma bucket_count_step:
  assumes "a < bound" "0 < step"
  shows "bucket_count a step bound = Suc (bucket_count (a + step) step bound)"
proof (cases "a + step \<le> bound")
  case True
  then have "bound - a + step - 1 = (bound - (a + step) + step - 1) + step"
    using assms by simp
  then have "(bound - a + step - 1) div step = Suc ((bound - (a + step) + step - 1) div step)"
    by (simp only: div_add_self2[OF less_imp_neq[OF assms(2), symmetric]] ) 
  then show ?thesis
    unfolding bucket_count_def .
next
  case False
  define d where "d = bound - a - 1"
  have d: "bound - a = Suc d" "d < step"
    using assms False by (simp_all add: d_def)
  have "(d + step) div step = 1"
    using d(2) by simp
  moreover have "bound - (a + step) = 0"
    using False by simp
  ultimately show ?thesis
    using assms d by (simp add: bucket_count_def)
qed

lemma length_bucket_starts: "length (bucket_starts a step bound) = bucket_count a step bound"
  by (simp add: bucket_starts_def)

lemma bucket_starts_done: "bound \<le> a \<Longrightarrow> 0 < step \<Longrightarrow> bucket_starts a step bound = []"
  by (simp add: bucket_starts_def bucket_count_done)

lemma bucket_starts_step:
  assumes "a < bound" "0 < step"
  shows "bucket_starts a step bound = a # bucket_starts (a + step) step bound"
proof -
  have "[0..<Suc n] = 0 # map Suc [0..<n]" for n
    by (simp add: map_Suc_upt upt_conv_Cons del: upt_Suc)
  then show ?thesis
    using assms by (simp add: bucket_starts_def bucket_count_step comp_def add.assoc del: upt_Suc)
qed

lemma flush_reset:
  assumes "accumulators_reset s" "m_tsdb s = Some t" "m_tstamp s \<noteq> TT_INVALID_TIMESTAMP"
  shows "RollupManager_flush mid tid s =
           Inr (s\<lparr>rollup_points := rollup_points s @ [empty_point t mid tid (m_tstamp s)]\<rparr>)"
  using assms by (simp add: RollupManager_flush_def accumulators_reset_def empty_point_def)

lemma fill_until_end_stop:
  "\<not> (m_tstamp s < end \<and> m_tstamp s < tstamp) \<Longrightarrow>
     fill_until_end mid tid interval end tstamp s = Some (Inr s)"
  by (subst fill_until_end.simps) (simp only: if_False)

lemma fill_until_end_go:
  "m_tstamp s < end \<Longrightarrow> m_tstamp s < tstamp \<Longrightarrow> RollupManager_flush mid tid s = Inr s' \<Longrightarrow>
     fill_until_end mid tid interval end tstamp s =
       fill_until_end mid tid interval end tstamp (s'\<lparr>m_tstamp := m_tstamp s' + interval\<rparr>)"
  by (subst fill_until_end.simps) simp

lemma fill_until_end_reset:
  assumes "0 < interval" "m_tsdb s = Some t" "accumulators_reset s"
    and "min end tstamp \<le> TT_INVALID_TIMESTAMP"
    and "n = bucket_count (m_tstamp s) interval (min end tstamp)"
  shows "fill_until_end mid tid interval end tstamp s =
           Some (Inr (s\<lparr>rollup_points := rollup_points s @
                         map (empty_point t mid tid)
                           (bucket_starts (m_tstamp s) interval (min end tstamp)),
                       m_tstamp := m_tstamp s + n * interval\<rparr>))"
  using assms
proof (induction n arbitrary: s)
  case 0
  have "\<not> m_tstamp s < min end tstamp"
  proof
    assume "m_tstamp s < min end tstamp"
    from bucket_count_step[OF this \<open>0 < interval\<close>] 0(5) show False by simp
  qed
  then have stop: "\<not> (m_tstamp s < end \<and> m_tstamp s < tstamp)" by simp
  from \<open>\<not> m_tstamp s < min end tstamp\<close> have "min end tstamp \<le> m_tstamp s"
    by (simp only: not_less)
  then have "bucket_starts (m_tstamp s) interval (min end tstamp) = []"
    using 0(1) by (rule bucket_starts_done)
  then show ?case
    using fill_until_end_stop[OF stop] by simp
next
  case (Suc n)
  have go: "m_tstamp s < min end tstamp"
  proof (rule ccontr)
    assume "\<not> m_tstamp s < min end tstamp"
    then have "min end tstamp \<le> m_tstamp s"
      by (simp only: not_less)
    then have "bucket_count (m_tstamp s) interval (min end tstamp) = 0"
      using Suc.prems(1) by (rule bucket_count_done)
    with Suc.prems(5) show False by simp
  qed
  then have valid: "m_tstamp s \<noteq> TT_INVALID_TIMESTAMP"
    using Suc.prems(4) by linarith
  let ?s' = "s\<lparr>rollup_points := rollup_points s @ [empty_point t mid tid (m_tstamp s)]\<rparr>"
  let ?s'' = "?s'\<lparr>m_tstamp := m_tstamp ?s' + interval\<rparr>"
  have fl: "RollupManager_flush mid tid s = Inr ?s'"
    by (rule flush_reset[OF Suc.prems(3) Suc.prems(2) valid])
  have n: "n = bucket_count (m_tstamp ?s'') interval (min end tstamp)"
    using bucket_count_step[OF go Suc.prems(1)] Suc.prems(5) by simp
  have IH: "fill_until_end mid tid interval end tstamp ?s'' =
           Some (Inr (?s''\<lparr>rollup_points := rollup_points ?s'' @
                         map (empty_point t mid tid)
                           (bucket_starts (m_tstamp ?s'') interval (min end tstamp)),
                       m_tstamp := m_tstamp ?s'' + n * interval\<rparr>))"
    using Suc.prems(1,2,3,4) n
    by (intro Suc.IH) (simp_all add: accumulators_reset_def)
  have "fill_until_end mid tid interval end tstamp s =
          fill_until_end mid tid interval end tstamp ?s''"
    using go fl by (intro fill_until_end_go) simp_all
  also note IH
  finally show ?case
    using bucket_starts_step[OF go Suc.prems(1)] by simp
qed

lemma fill_from_start_stop:
  "\<not> m_tstamp s < tstamp \<Longrightarrow> fill_from_start mid tid interval tstamp s = Some (Inr s)"
  by (subst fill_from_start.simps) (simp only: if_False)

lemma fill_from_start_go:
  "m_tstamp s < tstamp \<Longrightarrow> RollupManager_flush mid tid s = Inr s' \<Longrightarrow>
     fill_from_start mid tid interval tstamp s =
       fill_from_start mid tid interval tstamp (s'\<lparr>m_tstamp := m_tstamp s' + interval\<rparr>)"
  by (subst fill_from_start.simps) simp

lemma fill_from_start_reset:
  assumes "0 < interval" "m_tsdb s = Some t" "accumulators_reset s"
    and "tstamp \<le> TT_INVALID_TIMESTAMP"
    and "n = bucket_count (m_tstamp s) interval tstamp"
  shows "fill_from_start mid tid interval tstamp s =
           Some (Inr (s\<lparr>rollup_points := rollup_points s @
                         map (empty_point t mid tid) (bucket_starts (m_tstamp s) interval tstamp),
                       m_tstamp := m_tstamp s + n * interval\<rparr>))"
  using assms
proof (induction n arbitrary: s)
  case 0
  have stop: "\<not> m_tstamp s < tstamp"
  proof
    assume "m_tstamp s < tstamp"
    from bucket_count_step[OF this \<open>0 < interval\<close>] 0(5) show False by simp
  qed
  then have "tstamp \<le> m_tstamp s"
    by (simp only: not_less)
  then have "bucket_starts (m_tstamp s) interval tstamp = []"
    using 0(1) by (rule bucket_starts_done)
  then show ?case
    using fill_from_start_stop[OF stop] by simp
next
  case (Suc n)
  have go: "m_tstamp s < tstamp"
  proof (rule ccontr)
    assume "\<not> m_tstamp s < tstamp"
    then have "tstamp \<le> m_tstamp s"
      by (simp only: not_less)
    then have "bucket_count (m_tstamp s) interval tstamp = 0"
      using Suc.prems(1) by (rule bucket_count_done)
    with Suc.prems(5) show False by simp
  qed
  then have valid: "m_tstamp s \<noteq> TT_INVALID_TIMESTAMP"
    using Suc.prems(4) by linarith
  let ?s' = "s\<lparr>rollup_points := rollup_points s @ [empty_point t mid tid (m_tstamp s)]\<rparr>"
  let ?s'' = "?s'\<lparr>m_tstamp := m_tstamp ?s' + interval\<rparr>"
  have fl: "RollupManager_flush mid tid s = Inr ?s'"
    by (rule flush_reset[OF Suc.prems(3) Suc.prems(2) valid])
  have n: "n = bucket_count (m_tstamp ?s'') interval tstamp"
    using bucket_count_step[OF go Suc.prems(1)] Suc.prems(5) by simp
  have IH: "fill_from_start mid tid interval tstamp ?s'' =
           Some (Inr (?s''\<lparr>rollup_points := rollup_points ?s'' @
                         map (empty_point t mid tid) (bucket_starts (m_tstamp ?s'') interval tstamp),
                       m_tstamp := m_tstamp ?s'' + n * interval\<rparr>))"
    using Suc.prems(1,2,3,4) n
    by (intro Suc.IH) (simp_all add: accumulators_reset_def)
  have "fill_from_start mid tid interval tstamp s = fill_from_start mid tid interval tstamp ?s''"
    using go fl by (intro fill_from_start_go) simp_all
  also note IH
  finally show ?case
    using bucket_starts_step[OF go Suc.prems(1)] by simp
qed

lemma bucket_count_mult:
  assumes "0 < step"
  shows "bucket_count a step (a + k * step) = k"
proof -
  have "a + k * step - a + step - 1 = k * step + (step - 1)"
    using assms by simp
  moreover have "(k * step + (step - 1)) div step = k + (step - 1) div step"
    using assms by (intro div_mult_self3) simp
  moreover have "(step - 1) div step = 0"
    using assms by simp
  ultimately show ?thesis
    by (simp only: bucket_count_def add_0_right)
qed

lemma aligned_next:
  assumes "0 < (i::nat)" "i dvd cur" "i dvd b" "cur < b"
  obtains k where "b = cur + i + k * i"
proof -
  from assms(2) obtain p where p: "cur = i * p" ..
  from assms(3) obtain q where q: "b = i * q" ..
  from assms(4) have "p < q"
    unfolding p q using assms(1) by simp
  then obtain k where "q = Suc p + k"
    using less_imp_Suc_add by (metis add_Suc)
  then have "b = cur + i + k * i"
    unfolding p q by (simp add: algebra_simps)
  then show thesis ..
qed

lemma flush_open:
  assumes "m_tsdb s = Some t" "m_tstamp s \<noteq> TT_INVALID_TIMESTAMP"
  shows "RollupManager_flush mid tid s =
           Inr (s\<lparr>rollup_points := rollup_points s @ [flushed_point t mid tid s],
                  m_cnt := 0, m_min := 0, m_max := 0, m_sum := 0\<rparr>)"
  using assms by (simp add: RollupManager_flush_def flushed_point_def)

text \<open>
  Claim C4. A datapoint of the file the aggregator is bound to, whose bucket \<open>b\<close> comes
  after the current bucket, makes \<open>add_data_point\<close> flush the accumulators at the
  current bucket start \<open>m_tstamp s\<close>, then one empty aggregate \<open>(0,0,0,0)\<close> for every
  bucket start strictly between the two, and leaves the new bucket \<open>b\<close> open with the
  datapoint accumulated. With interval 10 and the inputs \<open>(0, 1.0)\<close> and \<open>(35, 2.0)\<close>
  this is the scenario of the witness: aggregates at 0, 10 and 20, the last two empty, and
  bucket 30 holding \<open>cnt = 1, sum = 2\<close>, which a flush then emits.
\<close>

theorem add_data_point_gap_filling:
  assumes tsdb: "m_tsdb s = Some t"
    and interval: "0 < get_rollup_interval t"
    and bucket: "b = ts - ts mod get_rollup_interval t"
    and cur: "get_rollup_interval t dvd m_tstamp s"
    and later: "m_tstamp s < b"
    and in_file: "b < get_to_sec t"
    and valid: "b \<le> TT_INVALID_TIMESTAMP"
  shows "RollupManager_add_data_point tsdb mid tid (ts, v) s =
           Some (Inr \<lparr>m_cnt = 1, m_min = min 0 v, m_max = max (min 0 v) v, m_sum = v,
                      m_tsdb = Some t, m_tstamp = b,
                      rollup_points = rollup_points s @
                        flushed_point t mid tid s #
                        map (empty_point t mid tid)
                          (bucket_starts (m_tstamp s + get_rollup_interval t)
                             (get_rollup_interval t) b)\<rparr>)"
proof -
  define i where "i = get_rollup_interval t"
  define cur where "cur = m_tstamp s"
  have i: "0 < i" using interval by (simp add: i_def)
  have b_dvd: "i dvd b"
    unfolding bucket i_def[symmetric] by (simp add: dvd_minus_mod)
  have cur_valid: "cur \<noteq> TT_INVALID_TIMESTAMP"
    using later valid by (simp add: cur_def)
  obtain k where k: "b = cur + i + k * i"
    using aligned_next[OF i _ b_dvd, of cur] cur later by (auto simp: i_def cur_def)
  let ?s1 = "s\<lparr>rollup_points := rollup_points s @ [flushed_point t mid tid s],
                  m_cnt := 0, m_min := 0, m_max := 0, m_sum := 0\<rparr>"
  let ?s2 = "?s1\<lparr>m_tstamp := m_tstamp ?s1 + i\<rparr>"
  have fl: "RollupManager_flush mid tid s = Inr ?s1"
    using tsdb cur_valid by (simp add: flush_open cur_def)
  have min_eq: "min (get_to_sec t) b = b"
    using in_file by simp
  have loop: "fill_until_end mid tid i (get_to_sec t) b ?s2 =
           Some (Inr (?s2\<lparr>rollup_points := rollup_points ?s2 @
                         map (empty_point t mid tid)
                           (bucket_starts (m_tstamp ?s2) i (min (get_to_sec t) b)),
                       m_tstamp := m_tstamp ?s2 + bucket_count (m_tstamp ?s2) i (min (get_to_sec t) b) * i\<rparr>))"
    using i tsdb valid
    by (intro fill_until_end_reset) (simp_all add: accumulators_reset_def)
  have final: "cur + i + bucket_count (cur + i) i b * i = b"
    unfolding k bucket_count_mult[OF i] ..
  have adv: "advance_bucket t tsdb mid tid i b s =
           Some (Inr (s\<lparr>rollup_points := rollup_points s @ flushed_point t mid tid s #
                         map (empty_point t mid tid) (bucket_starts (cur + i) i b),
                       m_cnt := 0, m_min := 0, m_max := 0, m_sum := 0, m_tstamp := b\<rparr>))"
    using fl loop final in_file
    by (simp add: advance_bucket_def min_eq cur_def)
  show ?thesis
    using tsdb i later cur_valid adv
    by (cases s) (simp add: RollupManager_add_data_point_def bucket i_def[symmetric] cur_def accumulate_def Let_def)
qed

theorem add_data_point_gap_filling_witness:
  "RollupManager_add_data_point file_0_100 7 3 (0, 1) RollupManager_new =
     Some (Inr \<lparr>m_cnt = 1, m_min = 0, m_max = 1, m_sum = 1, m_tsdb = Some file_0_100,
                m_tstamp = 0, rollup_points = []\<rparr>) \<and>
   RollupManager_add_data_point file_0_100 7 3 (35, 2)
       \<lparr>m_cnt = 1, m_min = 0, m_max = 1, m_sum = 1, m_tsdb = Some file_0_100,
        m_tstamp = 0, rollup_points = []\<rparr> =
     Some (Inr \<lparr>m_cnt = 1, m_min = 0, m_max = 2, m_sum = 2, m_tsdb = Some file_0_100,
                m_tstamp = 30,
                rollup_points =
                  [\<lparr>rp_tsdb = file_0_100, rp_mid = 7, rp_tid = 3, rp_tstamp = 0,
                    rp_cnt = 1, rp_min = 0, rp_max = 1, rp_sum = 1\<rparr>,
                   empty_point file_0_100 7 3 10, empty_point file_0_100 7 3 20]\<rparr>) \<and>
   RollupManager_flush 7 3
       \<lparr>m_cnt = 1, m_min = 0, m_max = 2, m_sum = 2, m_tsdb = Some file_0_100,
        m_tstamp = 30,
        rollup_points =
          [\<lparr>rp_tsdb = file_0_100, rp_mid = 7, rp_tid = 3, rp_tstamp = 0,
            rp_cnt = 1, rp_min = 0, rp_max = 1, rp_sum = 1\<rparr>,
           empty_point file_0_100 7 3 10, empty_point file_0_100 7 3 20]\<rparr> =
     Inr \<lparr>m_cnt = 0, m_min = 0, m_max = 0, m_sum = 0, m_tsdb = Some file_0_100,
          m_tstamp = 30,
          rollup_points =
            [\<lparr>rp_tsdb = file_0_100, rp_mid = 7, rp_tid = 3, rp_tstamp = 0,
              rp_cnt = 1, rp_min = 0, rp_max = 1, rp_sum = 1\<rparr>,
             empty_point file_0_100 7 3 10, empty_point file_0_100 7 3 20,
             \<lparr>rp_tsdb = file_0_100, rp_mid = 7, rp_tid = 3, rp_tstamp = 30,
              rp_cnt = 1, rp_min = 0, rp_max = 2, rp_sum = 2\<rparr>]\<rparr>"
proof (intro conjI)
  show "RollupManager_add_data_point file_0_100 7 3 (0, 1) RollupManager_new =
     Some (Inr \<lparr>m_cnt = 1, m_min = 0, m_max = 1, m_sum = 1, m_tsdb = Some file_0_100,
                m_tstamp = 0, rollup_points = []\<rparr>)"
    by (simp add: RollupManager_add_data_point_def RollupManager_new_def file_0_100_def
        accumulate_def TT_INVALID_TIMESTAMP_def)
  have starts: "bucket_starts 10 10 30 = [10, 20]"
    by (simp add: bucket_starts_def bucket_count_def upt_rec)
  show "RollupManager_add_data_point file_0_100 7 3 (35, 2)
       \<lparr>m_cnt = 1, m_min = 0, m_max = 1, m_sum = 1, m_tsdb = Some file_0_100,
        m_tstamp = 0, rollup_points = []\<rparr> =
     Some (Inr \<lparr>m_cnt = 1, m_min = 0, m_max = 2, m_sum = 2, m_tsdb = Some file_0_100,
                m_tstamp = 30,
                rollup_points =
                  [\<lparr>rp_tsdb = file_0_100, rp_mid = 7, rp_tid = 3, rp_tstamp = 0,
                    rp_cnt = 1, rp_min = 0, rp_max = 1, rp_sum = 1\<rparr>,
                   empty_point file_0_100 7 3 10, empty_point file_0_100 7 3 20]\<rparr>)"
    using add_data_point_gap_filling
      [of "\<lparr>m_cnt = 1, m_min = 0, m_max = 1, m_sum = 1, m_tsdb = Some file_0_100,
            m_tstamp = 0, rollup_points = []\<rparr>" file_0_100 30 35 file_0_100 7 3 2]
    by (simp add: file_0_100_def TT_INVALID_TIMESTAMP_def starts flushed_point_def)
  show "RollupManager_flush 7 3
       \<lparr>m_cnt = 1, m_min = 0, m_max = 2, m_sum = 2, m_tsdb = Some file_0_100,
        m_tstamp = 30,
        rollup_points =
          [\<lparr>rp_tsdb = file_0_100, rp_mid = 7, rp_tid = 3, rp_tstamp = 0,
            rp_cnt = 1, rp_min = 0, rp_max = 1, rp_sum = 1\<rparr>,
           empty_point file_0_100 7 3 10, empty_point file_0_100 7 3 20]\<rparr> =
     Inr \<lparr>m_cnt = 0, m_min = 0, m_max = 0, m_sum = 0, m_tsdb = Some file_0_100,
          m_tstamp = 30,
          rollup_points =
            [\<lparr>rp_tsdb = file_0_100, rp_mid = 7, rp_tid = 3, rp_tstamp = 0,
              rp_cnt = 1, rp_min = 0, rp_max = 1, rp_sum = 1\<rparr>,
             empty_point file_0_100 7 3 10, empty_point file_0_100 7 3 20,
             \<lparr>rp_tsdb = file_0_100, rp_mid = 7, rp_tid = 3, rp_tstamp = 30,
              rp_cnt = 1, rp_min = 0, rp_max = 2, rp_sum = 2\<rparr>]\<rparr>"
    by (simp add: RollupManager_flush_def TT_INVALID_TIMESTAMP_def)
qed

text \<open>
  Claim C5. When the gap filling of \<open>add_data_point\<close> leaves \<open>m_tstamp\<close> at or past the
  end of the file the aggregator is bound to, the aggregator rebinds to the file \<open>t2\<close>
  passed in the call and goes on with one empty aggregate, sent to \<open>t2\<close>, for every
  \<open>get_from_sec t2 + k * interval\<close> below the bucket \<open>b\<close> of the datapoint. \<open>inside\<close>
  are the bucket starts filled in the first file, \<open>next_file\<close> those filled in \<open>t2\<close>.
  The witness is the scenario with the files \<open>[0,100)\<close> and \<open>[100,200)\<close>: \<open>(5, 1)\<close>
  into the first, then \<open>(115, 2)\<close> into the second.
\<close>

theorem add_data_point_next_file:
  assumes tsdb: "m_tsdb s = Some t1"
    and interval1: "0 < get_rollup_interval t1"
    and interval2: "0 < get_rollup_interval t2"
    and bucket: "b = ts - ts mod get_rollup_interval t1"
    and differs: "m_tstamp s \<noteq> b"
    and open_bucket: "m_tstamp s \<noteq> TT_INVALID_TIMESTAMP"
    and valid: "b \<le> TT_INVALID_TIMESTAMP"
    and inside: "inside = bucket_starts (m_tstamp s + get_rollup_interval t1)
                   (get_rollup_interval t1) (min (get_to_sec t1) b)"
    and crossed: "get_to_sec t1 \<le>
                   m_tstamp s + get_rollup_interval t1 + length inside * get_rollup_interval t1"
    and next_file: "next_file = bucket_starts (get_from_sec t2) (get_rollup_interval t2) b"
  shows "RollupManager_add_data_point t2 mid tid (ts, v) s =
           Some (Inr \<lparr>m_cnt = 1, m_min = min 0 v, m_max = max (min 0 v) v, m_sum = v,
                      m_tsdb = Some t2,
                      m_tstamp = get_from_sec t2 + length next_file * get_rollup_interval t2,
                      rollup_points = rollup_points s @
                        flushed_point t1 mid tid s #
                        map (empty_point t1 mid tid) inside @
                        map (empty_point t2 mid tid) next_file\<rparr>)"
proof -
  define i where "i = get_rollup_interval t1"
  define cur where "cur = m_tstamp s"
  define e where "e = get_to_sec t1"
  have i: "0 < i" using interval1 by (simp add: i_def)
  let ?s1 = "s\<lparr>rollup_points := rollup_points s @ [flushed_point t1 mid tid s],
                  m_cnt := 0, m_min := 0, m_max := 0, m_sum := 0\<rparr>"
  let ?s2 = "?s1\<lparr>m_tstamp := m_tstamp ?s1 + i\<rparr>"
  have fl: "RollupManager_flush mid tid s = Inr ?s1"
    using tsdb open_bucket by (simp add: flush_open)
  have "min e b \<le> TT_INVALID_TIMESTAMP"
    using valid by simp
  then have loop1: "fill_until_end mid tid i e b ?s2 =
           Some (Inr (?s2\<lparr>rollup_points := rollup_points ?s2 @
                         map (empty_point t1 mid tid) (bucket_starts (m_tstamp ?s2) i (min e b)),
                       m_tstamp := m_tstamp ?s2 + bucket_count (m_tstamp ?s2) i (min e b) * i\<rparr>))"
    using i tsdb
    by (intro fill_until_end_reset) (simp_all add: accumulators_reset_def)
  let ?s3 = "?s2\<lparr>rollup_points := rollup_points ?s2 @ map (empty_point t1 mid tid) inside,
                   m_tstamp := cur + i + length inside * i\<rparr>"
  have loop1': "fill_until_end mid tid i e b ?s2 = Some (Inr ?s3)"
    using loop1 by (simp add: inside length_bucket_starts i_def cur_def e_def)
  let ?s4 = "?s3\<lparr>m_tsdb := Some t2, m_tstamp := get_from_sec t2\<rparr>"
  have loop2: "fill_from_start mid tid (get_rollup_interval t2) b ?s4 =
           Some (Inr (?s4\<lparr>rollup_points := rollup_points ?s4 @
                         map (empty_point t2 mid tid)
                           (bucket_starts (m_tstamp ?s4) (get_rollup_interval t2) b),
                       m_tstamp := m_tstamp ?s4 +
                         bucket_count (m_tstamp ?s4) (get_rollup_interval t2) b *
                           get_rollup_interval t2\<rparr>))"
    using interval2 valid
    by (intro fill_from_start_reset) (simp_all add: accumulators_reset_def)
  have adv: "advance_bucket t1 t2 mid tid i b s =
           Some (Inr (s\<lparr>rollup_points := rollup_points s @ flushed_point t1 mid tid s #
                         map (empty_point t1 mid tid) inside @
                         map (empty_point t2 mid tid) next_file,
                       m_cnt := 0, m_min := 0, m_max := 0, m_sum := 0,
                       m_tsdb := Some t2,
                       m_tstamp := get_from_sec t2 + length next_file * get_rollup_interval t2\<rparr>))"
    using fl loop1' loop2 crossed
    by (simp add: advance_bucket_def cur_def i_def e_def length_bucket_starts inside next_file)
  show ?thesis
    using tsdb i differs open_bucket adv
    by (cases s) (simp add: RollupManager_add_data_point_def bucket i_def[symmetric] accumulate_def Let_def)
qed


theorem add_data_point_next_file_witness:
  "RollupManager_add_data_point file_0_100 7 3 (5, 1) RollupManager_new =
     Some (Inr \<lparr>m_cnt = 1, m_min = 0, m_max = 1, m_sum = 1, m_tsdb = Some file_0_100,
                m_tstamp = 0, rollup_points = []\<rparr>) \<and>
   RollupManager_add_data_point file_100_200 7 3 (115, 2)
       \<lparr>m_cnt = 1, m_min = 0, m_max = 1, m_sum = 1, m_tsdb = Some file_0_100,
        m_tstamp = 0, rollup_points = []\<rparr> =
     Some (Inr \<lparr>m_cnt = 1, m_min = 0, m_max = 2, m_sum = 2, m_tsdb = Some file_100_200,
                m_tstamp = 110,
                rollup_points =
                  \<lparr>rp_tsdb = file_0_100, rp_mid = 7, rp_tid = 3, rp_tstamp = 0,
                    rp_cnt = 1, rp_min = 0, rp_max = 1, rp_sum = 1\<rparr> #
                  map (empty_point file_0_100 7 3) [10, 20, 30, 40, 50, 60, 70, 80, 90] @
                  [empty_point file_100_200 7 3 100]\<rparr>) \<and>
   RollupManager_flush 7 3
       \<lparr>m_cnt = 1, m_min = 0, m_max = 2, m_sum = 2, m_tsdb = Some file_100_200,
        m_tstamp = 110,
        rollup_points =
          \<lparr>rp_tsdb = file_0_100, rp_mid = 7, rp_tid = 3, rp_tstamp = 0,
            rp_cnt = 1, rp_min = 0, rp_max = 1, rp_sum = 1\<rparr> #
          map (empty_point file_0_100 7 3) [10, 20, 30, 40, 50, 60, 70, 80, 90] @
          [empty_point file_100_200 7 3 100]\<rparr> =
     Inr \<lparr>m_cnt = 0, m_min = 0, m_max = 0, m_sum = 0, m_tsdb = Some file_100_200,
          m_tstamp = 110,
          rollup_points =
            \<lparr>rp_tsdb = file_0_100, rp_mid = 7, rp_tid = 3, rp_tstamp = 0,
              rp_cnt = 1, rp_min = 0, rp_max = 1, rp_sum = 1\<rparr> #
            map (empty_point file_0_100 7 3) [10, 20, 30, 40, 50, 60, 70, 80, 90] @
            [empty_point file_100_200 7 3 100,
             \<lparr>rp_tsdb = file_100_200, rp_mid = 7, rp_tid = 3, rp_tstamp = 110,
              rp_cnt = 1, rp_min = 0, rp_max = 2, rp_sum = 2\<rparr>]\<rparr>"
proof (intro conjI)
  show "RollupManager_add_data_point file_0_100 7 3 (5, 1) RollupManager_new =
     Some (Inr \<lparr>m_cnt = 1, m_min = 0, m_max = 1, m_sum = 1, m_tsdb = Some file_0_100,
                m_tstamp = 0, rollup_points = []\<rparr>)"
    by (simp add: RollupManager_add_data_point_def RollupManager_new_def file_0_100_def
        accumulate_def TT_INVALID_TIMESTAMP_def)
  have inside: "bucket_starts 10 10 100 = [10, 20, 30, 40, 50, 60, 70, 80, 90]"
    by (simp add: bucket_starts_def bucket_count_def upt_rec)
  have next_file: "bucket_starts 100 10 110 = [100]"
    by (simp add: bucket_starts_def bucket_count_def upt_rec)
  show "RollupManager_add_data_point file_100_200 7 3 (115, 2)
       \<lparr>m_cnt = 1, m_min = 0, m_max = 1, m_sum = 1, m_tsdb = Some file_0_100,
        m_tstamp = 0, rollup_points = []\<rparr> =
     Some (Inr \<lparr>m_cnt = 1, m_min = 0, m_max = 2, m_sum = 2, m_tsdb = Some file_100_200,
                m_tstamp = 110,
                rollup_points =
                  \<lparr>rp_tsdb = file_0_100, rp_mid = 7, rp_tid = 3, rp_tstamp = 0,
                    rp_cnt = 1, rp_min = 0, rp_max = 1, rp_sum = 1\<rparr> #
                  map (empty_point file_0_100 7 3) [10, 20, 30, 40, 50, 60, 70, 80, 90] @
                  [empty_point file_100_200 7 3 100]\<rparr>)"
    using add_data_point_next_file [of
        "\<lparr>m_cnt = 1, m_min = 0, m_max = 1, m_sum = 1, m_tsdb = Some file_0_100,
          m_tstamp = 0, rollup_points = []\<rparr>"
        file_0_100 file_100_200 110 115
        "[10, 20, 30, 40, 50, 60, 70, 80, 90]" "[100]" 7 3 2]
    by (simp add: file_0_100_def file_100_200_def TT_INVALID_TIMESTAMP_def inside next_file
        flushed_point_def)
  show "RollupManager_flush 7 3
       \<lparr>m_cnt = 1, m_min = 0, m_max = 2, m_sum = 2, m_tsdb = Some file_100_200,
        m_tstamp = 110,
        rollup_points =
          \<lparr>rp_tsdb = file_0_100, rp_mid = 7, rp_tid = 3, rp_tstamp = 0,
            rp_cnt = 1, rp_min = 0, rp_max = 1, rp_sum = 1\<rparr> #
          map (empty_point file_0_100 7 3) [10, 20, 30, 40, 50, 60, 70, 80, 90] @
          [empty_point file_100_200 7 3 100]\<rparr> =
     Inr \<lparr>m_cnt = 0, m_min = 0, m_max = 0, m_sum = 0, m_tsdb = Some file_100_200,
          m_tstamp = 110,
          rollup_points =
            \<lparr>rp_tsdb = file_0_100, rp_mid = 7, rp_tid = 3, rp_tstamp = 0,
              rp_cnt = 1, rp_min = 0, rp_max = 1, rp_sum = 1\<rparr> #
            map (empty_point file_0_100 7 3) [10, 20, 30, 40, 50, 60, 70, 80, 90] @
            [empty_point file_100_200 7 3 100,
             \<lparr>rp_tsdb = file_100_200, rp_mid = 7, rp_tid = 3, rp_tstamp = 110,
              rp_cnt = 1, rp_min = 0, rp_max = 2, rp_sum = 2\<rparr>]\<rparr>"
    by (simp add: RollupManager_flush_def TT_INVALID_TIMESTAMP_def)
qed

text \<open>
  Claim C1. The claim asks for \<open>max = max(old max, v)\<close>. Line 83 of the source computes
  \<open>std::max(m_min, value)\<close> instead: after 5 and then 3 in one bucket the max accumulator
  is 3, where the claim has \<open>max 5 3 = 5\<close>, and the aggregate flushed for the bucket
  reports 3.
\<close>

theorem add_data_point_max_is_last_value:
  "RollupManager_add_data_point file_0_100 7 3 (0, 5) RollupManager_new =
     Some (Inr \<lparr>m_cnt = 1, m_min = 0, m_max = 5, m_sum = 5, m_tsdb = Some file_0_100,
                m_tstamp = 0, rollup_points = []\<rparr>) \<and>
   RollupManager_add_data_point file_0_100 7 3 (1, 3)
       \<lparr>m_cnt = 1, m_min = 0, m_max = 5, m_sum = 5, m_tsdb = Some file_0_100,
        m_tstamp = 0, rollup_points = []\<rparr> =
     Some (Inr \<lparr>m_cnt = 2, m_min = 0, m_max = 3, m_sum = 8, m_tsdb = Some file_0_100,
                m_tstamp = 0, rollup_points = []\<rparr>) \<and>
   max (5 :: real) 3 = 5 \<and>
   RollupManager_flush 7 3
       \<lparr>m_cnt = 2, m_min = 0, m_max = 3, m_sum = 8, m_tsdb = Some file_0_100,
        m_tstamp = 0, rollup_points = []\<rparr> =
     Inr \<lparr>m_cnt = 0, m_min = 0, m_max = 0, m_sum = 0, m_tsdb = Some file_0_100,
          m_tstamp = 0,
          rollup_points = [\<lparr>rp_tsdb = file_0_100, rp_mid = 7, rp_tid = 3, rp_tstamp = 0,
                            rp_cnt = 2, rp_min = 0, rp_max = 3, rp_sum = 8\<rparr>]\<rparr>"
  by (simp add: RollupManager_add_data_point_def RollupManager_new_def file_0_100_def
      accumulate_def RollupManager_flush_def TT_INVALID_TIMESTAMP_def)

lemma flush_mins:
  "mins_at_most_zero s \<Longrightarrow> RollupManager_flush mid tid s = Inr s' \<Longrightarrow> mins_at_most_zero s'"
  by (auto simp: RollupManager_flush_def mins_at_most_zero_def split: if_splits option.splits)


lemma fill_until_end_preserves:
  assumes flush: "\<And>mid tid s s'. Inv s \<Longrightarrow> RollupManager_flush mid tid s = Inr s' \<Longrightarrow> Inv s'"
    and tstamp: "\<And>s t. Inv s \<Longrightarrow> Inv (s\<lparr>m_tstamp := t\<rparr>)"
    and run: "fill_until_end mid tid interval end tstamp s = Some r"
  shows "Inv s \<longrightarrow> (\<forall>s'. r = Inr s' \<longrightarrow> Inv s')"
proof (rule fill_until_end.raw_induct
    [where P = "\<lambda>mid tid interval e tstamp s r. Inv s \<longrightarrow> (\<forall>s'. r = Inr s' \<longrightarrow> Inv s')", OF _ run])
  fix f mid tid interval e tstamp s r
  assume 1: "\<And>mid tid interval e tstamp s r.
                f mid tid interval e tstamp s = Some r \<Longrightarrow> Inv s \<longrightarrow> (\<forall>s'. r = Inr s' \<longrightarrow> Inv s')"
    "(if m_tstamp s < e \<and> m_tstamp s < tstamp
      then case RollupManager_flush mid tid s of
             Inl e \<Rightarrow> Some (Inl e)
           | Inr s' \<Rightarrow> f mid tid interval e tstamp (s'\<lparr>m_tstamp := m_tstamp s' + interval\<rparr>)
      else Some (Inr s)) = Some r"
  show "Inv s \<longrightarrow> (\<forall>s'. r = Inr s' \<longrightarrow> Inv s')"
  proof (intro impI allI)
    fix s'
    assume inv: "Inv s" and r: "r = Inr s'"
    show "Inv s'"
    proof (cases "m_tstamp s < e \<and> m_tstamp s < tstamp")
      case True
      with 1(2) r obtain s1 where s1: "RollupManager_flush mid tid s = Inr s1"
        and rec: "f mid tid interval e tstamp (s1\<lparr>m_tstamp := m_tstamp s1 + interval\<rparr>) = Some (Inr s')"
        by (auto split: sum.splits)
      have "Inv (s1\<lparr>m_tstamp := m_tstamp s1 + interval\<rparr>)"
        using flush[OF inv s1] by (rule tstamp)
      with 1(1) rec show ?thesis by blast
    next
      case False
      with 1(2) r inv show ?thesis by simp
    qed
  qed
qed

lemma fill_from_start_preserves:
  assumes flush: "\<And>mid tid s s'. Inv s \<Longrightarrow> RollupManager_flush mid tid s = Inr s' \<Longrightarrow> Inv s'"
    and tstamp: "\<And>s t. Inv s \<Longrightarrow> Inv (s\<lparr>m_tstamp := t\<rparr>)"
    and run: "fill_from_start mid tid interval tstamp s = Some r"
  shows "Inv s \<longrightarrow> (\<forall>s'. r = Inr s' \<longrightarrow> Inv s')"
proof (rule fill_from_start.raw_induct
    [where P = "\<lambda>mid tid interval tstamp s r. Inv s \<longrightarrow> (\<forall>s'. r = Inr s' \<longrightarrow> Inv s')", OF _ run])
  fix f mid tid interval tstamp s r
  assume 1: "\<And>mid tid interval tstamp s r.
                f mid tid interval tstamp s = Some r \<Longrightarrow> Inv s \<longrightarrow> (\<forall>s'. r = Inr s' \<longrightarrow> Inv s')"
    "(if m_tstamp s < tstamp
      then case RollupManager_flush mid tid s of
             Inl e \<Rightarrow> Some (Inl e)
           | Inr s' \<Rightarrow> f mid tid interval tstamp (s'\<lparr>m_tstamp := m_tstamp s' + interval\<rparr>)
      else Some (Inr s)) = Some r"
  show "Inv s \<longrightarrow> (\<forall>s'. r = Inr s' \<longrightarrow> Inv s')"
  proof (intro impI allI)
    fix s'
    assume inv: "Inv s" and r: "r = Inr s'"
    show "Inv s'"
    proof (cases "m_tstamp s < tstamp")
      case True
      with 1(2) r obtain s1 where s1: "RollupManager_flush mid tid s = Inr s1"
        and rec: "f mid tid interval tstamp (s1\<lparr>m_tstamp := m_tstamp s1 + interval\<rparr>) = Some (Inr s')"
        by (auto split: sum.splits)
      have "Inv (s1\<lparr>m_tstamp := m_tstamp s1 + interval\<rparr>)"
        using flush[OF inv s1] by (rule tstamp)
      with 1(1) rec show ?thesis by blast
    next
      case False
      with 1(2) r inv show ?thesis by simp
    qed
  qed
qed

lemma advance_bucket_preserves:
  assumes flush: "\<And>mid tid s s'. Inv s \<Longrightarrow> RollupManager_flush mid tid s = Inr s' \<Longrightarrow> Inv s'"
    and tstamp: "\<And>s t. Inv s \<Longrightarrow> Inv (s\<lparr>m_tstamp := t\<rparr>)"
    and tsdb: "\<And>s t. Inv s \<Longrightarrow> Inv (s\<lparr>m_tsdb := t\<rparr>)"
    and run: "advance_bucket cur tsdb mid tid interval tstamp s = Some (Inr s')"
    and inv: "Inv s"
  shows "Inv s'"
proof -
  from run obtain s1 where s1: "RollupManager_flush mid tid s = Inr s1"
    by (auto simp: advance_bucket_def split: sum.splits)
  let ?s1 = "s1\<lparr>m_tstamp := m_tstamp s1 + interval\<rparr>"
  from run s1 obtain s2 where s2: "fill_until_end mid tid interval (get_to_sec cur) tstamp ?s1 = Some (Inr s2)"
    by (auto simp: advance_bucket_def Let_def split: sum.splits option.splits)
  have "Inv ?s1"
    using flush[OF inv s1] by (rule tstamp)
  with fill_until_end_preserves[of Inv, OF flush tstamp s2] have inv2: "Inv s2"
    by simp
  show ?thesis
  proof (cases "m_tstamp s2 \<ge> get_to_sec cur")
    case True
    let ?s3 = "s2\<lparr>m_tsdb := Some tsdb, m_tstamp := get_from_sec tsdb\<rparr>"
    from run s1 s2 True have s3: "fill_from_start mid tid (get_rollup_interval tsdb) tstamp ?s3 = Some (Inr s')"
      by (simp add: advance_bucket_def Let_def)
    have "Inv ?s3"
      using inv2 by (intro tstamp tsdb)
    with fill_from_start_preserves[of Inv, OF flush tstamp s3] show ?thesis
      by simp
  next
    case False
    with run s1 s2 inv2 show ?thesis
      by (simp add: advance_bucket_def Let_def)
  qed
qed

lemma add_data_point_preserves:
  assumes flush: "\<And>mid tid s s'. Inv s \<Longrightarrow> RollupManager_flush mid tid s = Inr s' \<Longrightarrow> Inv s'"
    and tstamp: "\<And>s t. Inv s \<Longrightarrow> Inv (s\<lparr>m_tstamp := t\<rparr>)"
    and tsdb: "\<And>s t. Inv s \<Longrightarrow> Inv (s\<lparr>m_tsdb := t\<rparr>)"
    and acc: "\<And>s. Inv s \<Longrightarrow> Inv (accumulate (snd dp) s)"
    and run: "RollupManager_add_data_point tsdb mid tid dp s = Some (Inr s')"
    and inv: "Inv s"
  shows "Inv s'"
proof -
  define cur where "cur = (case m_tsdb s of None \<Rightarrow> tsdb | Some t \<Rightarrow> t)"
  define interval where "interval = get_rollup_interval cur"
  define b where "b = fst dp - fst dp mod interval"
  define s2 where "s2 = (if m_tstamp (s\<lparr>m_tsdb := Some cur\<rparr>) = TT_INVALID_TIMESTAMP
                          then s\<lparr>m_tsdb := Some cur, m_tstamp := b\<rparr> else s\<lparr>m_tsdb := Some cur\<rparr>)"
  have unfold: "RollupManager_add_data_point tsdb mid tid dp s =
      (if interval = 0 then Some (Inl AssertionFailed)
       else if b \<noteq> m_tstamp s2 then
         (case advance_bucket cur tsdb mid tid interval b s2 of
            None \<Rightarrow> None
          | Some (Inl e) \<Rightarrow> Some (Inl e)
          | Some (Inr s3) \<Rightarrow> Some (Inr (accumulate (snd dp) s3)))
       else Some (Inr (accumulate (snd dp) s2)))"
    by (simp add: RollupManager_add_data_point_def Let_def cur_def interval_def b_def s2_def)
  have inv2: "Inv s2"
    unfolding s2_def using inv by (auto intro: tstamp tsdb)
  have pos: "interval \<noteq> 0"
  proof
    assume "interval = 0"
    with run unfold show False by simp
  qed
  show ?thesis
  proof (cases "b \<noteq> m_tstamp s2")
    case True
    with run unfold pos
    have "(case advance_bucket cur tsdb mid tid interval b s2 of
            None \<Rightarrow> None
          | Some (Inl e) \<Rightarrow> Some (Inl e)
          | Some (Inr s3) \<Rightarrow> Some (Inr (accumulate (snd dp) s3))) = Some (Inr s')"
      by simp
    then obtain s3 where s3: "advance_bucket cur tsdb mid tid interval b s2 = Some (Inr s3)"
      and s': "s' = accumulate (snd dp) s3"
      by (auto split: option.splits sum.splits)
    have "Inv s3"
      using advance_bucket_preserves[of Inv, OF flush tstamp tsdb s3 inv2] .
    then show ?thesis unfolding s' by (rule acc)
  next
    case False
    with run unfold pos have "s' = accumulate (snd dp) s2"
      by simp
    with inv2 show ?thesis by (simp add: acc)
  qed
qed


lemma fold_accumulate_fields:
  "m_tsdb (fold accumulate vs s) = m_tsdb s \<and>
   m_tstamp (fold accumulate vs s) = m_tstamp s \<and>
   rollup_points (fold accumulate vs s) = rollup_points s \<and>
   m_cnt (fold accumulate vs s) = m_cnt s + length vs"
  by (induction vs arbitrary: s) (simp_all add: accumulate_def)

lemma fold_accumulate_positive:
  "m_min s = 0 \<Longrightarrow> \<forall>v \<in> set vs. 0 < v \<Longrightarrow> m_min (fold accumulate vs s) = 0"
  by (induction vs arbitrary: s) (simp_all add: accumulate_def)

lemma flush_min_zero:
  "m_min s = 0 \<Longrightarrow> RollupManager_flush mid tid s = Inr s' \<Longrightarrow> m_min s' = 0"
  by (auto simp: RollupManager_flush_def split: if_splits option.splits)

lemma flush_empty_bucket:
  "empty_bucket_min_zero s \<Longrightarrow> RollupManager_flush mid tid s = Inr s' \<Longrightarrow>
     empty_bucket_min_zero s'"
  by (auto simp: RollupManager_flush_def empty_bucket_min_zero_def split: if_splits option.splits)

lemma reachable_empty_bucket:
  assumes "reachable s"
  shows "empty_bucket_min_zero s"
  using assms
proof (induction rule: reachable.induct)
  case reachable_new
  show ?case by (simp add: empty_bucket_min_zero_def RollupManager_new_def)
next
  case (reachable_add s tsdb mid tid dp s')
  show ?case
  proof (rule add_data_point_preserves[of empty_bucket_min_zero, OF _ _ _ _ reachable_add.hyps(2) reachable_add.IH])
    show "\<And>mid tid s s'. empty_bucket_min_zero s \<Longrightarrow> RollupManager_flush mid tid s = Inr s' \<Longrightarrow>
        empty_bucket_min_zero s'"
      by (rule flush_empty_bucket)
    show "\<And>s t. empty_bucket_min_zero s \<Longrightarrow> empty_bucket_min_zero (s\<lparr>m_tstamp := t\<rparr>)"
      by (simp add: empty_bucket_min_zero_def)
    show "\<And>s t. empty_bucket_min_zero s \<Longrightarrow> empty_bucket_min_zero (s\<lparr>m_tsdb := t\<rparr>)"
      by (simp add: empty_bucket_min_zero_def)
    show "\<And>s. empty_bucket_min_zero s \<Longrightarrow> empty_bucket_min_zero (accumulate (snd dp) s)"
      by (simp add: empty_bucket_min_zero_def accumulate_def)
  qed
next
  case (reachable_flush s mid tid s')
  then show ?case by (simp add: flush_empty_bucket)
qed

lemma advance_bucket_min_zero:
  assumes run: "advance_bucket cur tsdb mid tid interval tstamp s = Some (Inr s')"
    and valid: "m_tstamp s \<noteq> TT_INVALID_TIMESTAMP"
  shows "m_min s' = 0"
proof -
  let ?Inv = "\<lambda>s. m_min s = 0"
  have flush: "\<And>mid tid s s'. ?Inv s \<Longrightarrow> RollupManager_flush mid tid s = Inr s' \<Longrightarrow> ?Inv s'"
    by (rule flush_min_zero)
  have tstamp: "\<And>s t. ?Inv s \<Longrightarrow> ?Inv (s\<lparr>m_tstamp := t\<rparr>)"
    by simp
  from run obtain s1 where s1: "RollupManager_flush mid tid s = Inr s1"
    by (auto simp: advance_bucket_def split: sum.splits)
  have min1: "m_min s1 = 0"
    using s1 valid by (auto simp: RollupManager_flush_def split: option.splits)
  let ?s1 = "s1\<lparr>m_tstamp := m_tstamp s1 + interval\<rparr>"
  from run s1 obtain s2 where s2: "fill_until_end mid tid interval (get_to_sec cur) tstamp ?s1 = Some (Inr s2)"
    by (auto simp: advance_bucket_def Let_def split: sum.splits option.splits)
  have "?Inv ?s1"
    using min1 by simp
  with fill_until_end_preserves[of ?Inv, OF flush tstamp s2] have inv2: "m_min s2 = 0"
    by simp
  show ?thesis
  proof (cases "m_tstamp s2 \<ge> get_to_sec cur")
    case True
    let ?s3 = "s2\<lparr>m_tsdb := Some tsdb, m_tstamp := get_from_sec tsdb\<rparr>"
    from run s1 s2 True have s3: "fill_from_start mid tid (get_rollup_interval tsdb) tstamp ?s3 = Some (Inr s')"
      by (simp add: advance_bucket_def Let_def)
    have "?Inv ?s3"
      using inv2 by simp
    with fill_from_start_preserves[of ?Inv, OF flush tstamp s3] show ?thesis
      by simp
  next
    case False
    with run s1 s2 inv2 show ?thesis
      by (simp add: advance_bucket_def Let_def)
  qed
qed

lemma add_data_point_positive:
  assumes reach: "reachable s"
    and run: "RollupManager_add_data_point tsdb mid tid (ts, v) s = Some (Inr s')"
    and pos: "0 < v"
    and first: "m_cnt s' = 1 \<or> m_min s = 0"
  shows "m_min s' = 0"
proof -
  define cur where "cur = (case m_tsdb s of None \<Rightarrow> tsdb | Some t \<Rightarrow> t)"
  define interval where "interval = get_rollup_interval cur"
  define b where "b = ts - ts mod interval"
  define s2 where "s2 = (if m_tstamp (s\<lparr>m_tsdb := Some cur\<rparr>) = TT_INVALID_TIMESTAMP
                          then s\<lparr>m_tsdb := Some cur, m_tstamp := b\<rparr> else s\<lparr>m_tsdb := Some cur\<rparr>)"
  have unfold: "RollupManager_add_data_point tsdb mid tid (ts, v) s =
      (if interval = 0 then Some (Inl AssertionFailed)
       else if b \<noteq> m_tstamp s2 then
         (case advance_bucket cur tsdb mid tid interval b s2 of
            None \<Rightarrow> None
          | Some (Inl e) \<Rightarrow> Some (Inl e)
          | Some (Inr s3) \<Rightarrow> Some (Inr (accumulate v s3)))
       else Some (Inr (accumulate v s2)))"
    by (simp add: RollupManager_add_data_point_def Let_def cur_def interval_def b_def s2_def)
  have acc2: "m_cnt s2 = m_cnt s" "m_min s2 = m_min s"
    by (simp_all add: s2_def)
  have pos_interval: "interval \<noteq> 0"
  proof
    assume "interval = 0"
    with run unfold show False by simp
  qed
  show ?thesis
  proof (cases "b \<noteq> m_tstamp s2")
    case True
    with run unfold pos_interval
    have "(case advance_bucket cur tsdb mid tid interval b s2 of
            None \<Rightarrow> None
          | Some (Inl e) \<Rightarrow> Some (Inl e)
          | Some (Inr s3) \<Rightarrow> Some (Inr (accumulate v s3))) = Some (Inr s')"
      by simp
    then obtain s3 where s3: "advance_bucket cur tsdb mid tid interval b s2 = Some (Inr s3)"
      and s': "s' = accumulate v s3"
      by (auto split: option.splits sum.splits)
    have "m_tstamp s2 \<noteq> TT_INVALID_TIMESTAMP"
      using True by (auto simp: s2_def split: if_splits)
    with s3 have "m_min s3 = 0"
      by (rule advance_bucket_min_zero)
    then show ?thesis
      using pos by (simp add: s' accumulate_def)
  next
    case False
    with run unfold pos_interval have s': "s' = accumulate v s2"
      by simp
    have "m_min s = 0"
      using first
    proof
      assume "m_cnt s' = 1"
      then have "m_cnt s = 0"
        by (simp add: s' accumulate_def acc2)
      with reachable_empty_bucket[OF reach] show ?thesis
        by (simp add: empty_bucket_min_zero_def)
    qed
    then show ?thesis
      using pos by (simp add: s' accumulate_def acc2)
  qed
qed


text \<open>
  Claim C9. The min accumulator starts at 0 and every flush sets it to 0 again, so in every
  state the aggregator can reach it is at most 0, and so is the min of every aggregate
  sent to \<open>add_rollup_point\<close>. A strictly positive value that \<open>add_data_point\<close>
  accumulates as the first of its bucket, or into a bucket whose min is 0, leaves the min
  at 0. When strictly positive values \<open>vs\<close> are accumulated into reset accumulators, the
  aggregate that \<open>flush\<close> emits has min 0, not the least of \<open>vs\<close>.
\<close>

theorem flushed_min_at_most_zero:
  "(reachable s \<longrightarrow> m_min s \<le> 0 \<and> (\<forall>p \<in> set (rollup_points s). rp_min p \<le> 0)) \<and>
   (reachable s \<and> RollupManager_add_data_point tsdb mid tid (ts, v) s = Some (Inr s') \<and>
    0 < v \<and> (m_cnt s' = 1 \<or> m_min s = 0) \<longrightarrow> m_min s' = 0) \<and>
   (accumulators_reset s0 \<and> (\<forall>v \<in> set vs. 0 < v) \<and> m_tsdb s0 = Some t \<and>
    m_tstamp s0 \<noteq> TT_INVALID_TIMESTAMP \<longrightarrow>
      (\<exists>p. RollupManager_flush mid tid (fold accumulate vs s0) =
              Inr ((fold accumulate vs s0)
                     \<lparr>rollup_points := rollup_points s0 @ [p],
                      m_cnt := 0, m_min := 0, m_max := 0, m_sum := 0\<rparr>) \<and>
            rp_tstamp p = m_tstamp s0 \<and> rp_cnt p = length vs \<and> rp_min p = 0))"
proof (intro conjI impI)
  assume "reachable s"
  then have "mins_at_most_zero s"
  proof (induction rule: reachable.induct)
    case reachable_new
    show ?case by (simp add: mins_at_most_zero_def RollupManager_new_def)
  next
    case (reachable_add s tsdb mid tid dp s')
    show ?case
    proof (rule add_data_point_preserves[of mins_at_most_zero, OF _ _ _ _ reachable_add.hyps(2) reachable_add.IH])
      show "\<And>mid tid s s'. mins_at_most_zero s \<Longrightarrow> RollupManager_flush mid tid s = Inr s' \<Longrightarrow> mins_at_most_zero s'"
        by (rule flush_mins)
      show "\<And>s t. mins_at_most_zero s \<Longrightarrow> mins_at_most_zero (s\<lparr>m_tstamp := t\<rparr>)"
        by (simp add: mins_at_most_zero_def)
      show "\<And>s t. mins_at_most_zero s \<Longrightarrow> mins_at_most_zero (s\<lparr>m_tsdb := t\<rparr>)"
        by (simp add: mins_at_most_zero_def)
      show "\<And>s. mins_at_most_zero s \<Longrightarrow> mins_at_most_zero (accumulate (snd dp) s)"
        by (simp add: mins_at_most_zero_def accumulate_def min_le_iff_disj)
    qed
  next
    case (reachable_flush s mid tid s')
    then show ?case by (simp add: flush_mins)
  qed
  then show "m_min s \<le> 0" and "\<forall>p \<in> set (rollup_points s). rp_min p \<le> 0"
    by (simp_all add: mins_at_most_zero_def)
next
  assume "reachable s \<and> RollupManager_add_data_point tsdb mid tid (ts, v) s = Some (Inr s') \<and>
    0 < v \<and> (m_cnt s' = 1 \<or> m_min s = 0)"
  then show "m_min s' = 0"
    using add_data_point_positive[of s tsdb mid tid ts v s'] by blast
next
  assume a: "accumulators_reset s0 \<and> (\<forall>v \<in> set vs. 0 < v) \<and> m_tsdb s0 = Some t \<and>
    m_tstamp s0 \<noteq> TT_INVALID_TIMESTAMP"
  let ?s = "fold accumulate vs s0"
  have min0: "m_min ?s = 0"
    using a by (intro fold_accumulate_positive) (simp_all add: accumulators_reset_def)
  have "RollupManager_flush mid tid ?s =
          Inr (?s\<lparr>rollup_points := rollup_points ?s @ [flushed_point t mid tid ?s],
                  m_cnt := 0, m_min := 0, m_max := 0, m_sum := 0\<rparr>)"
    using a by (intro flush_open) (simp_all add: fold_accumulate_fields)
  moreover have "rp_tstamp (flushed_point t mid tid ?s) = m_tstamp s0"
    "rp_cnt (flushed_point t mid tid ?s) = length vs"
    "rp_min (flushed_point t mid tid ?s) = 0"
    using a min0 by (simp_all add: flushed_point_def fold_accumulate_fields accumulators_reset_def)
  ultimately show "\<exists>p. RollupManager_flush mid tid ?s =
              Inr (?s\<lparr>rollup_points := rollup_points s0 @ [p],
                      m_cnt := 0, m_min := 0, m_max := 0, m_sum := 0\<rparr>) \<and>
            rp_tstamp p = m_tstamp s0 \<and> rp_cnt p = length vs \<and> rp_min p = 0"
    by (intro exI[of _ "flushed_point t mid tid ?s"]) (simp add: fold_accumulate_fields)
qed

theorem flushed_min_at_most_zero_witness:
  "RollupManager_add_data_point file_0_100 7 3 (0, 3) RollupManager_new =
     Some (Inr \<lparr>m_cnt = 1, m_min = 0, m_max = 3, m_sum = 3, m_tsdb = Some file_0_100,
                m_tstamp = 0, rollup_points = []\<rparr>) \<and>
   reachable \<lparr>m_cnt = 0, m_min = 0, m_max = 0, m_sum = 0, m_tsdb = Some file_0_100,
              m_tstamp = 0,
              rollup_points = [\<lparr>rp_tsdb = file_0_100, rp_mid = 7, rp_tid = 3, rp_tstamp = 0,
                                rp_cnt = 2, rp_min = 0, rp_max = 5, rp_sum = 8\<rparr>]\<rparr> \<and>
   RollupManager_flush 7 3
     (fold accumulate [4, 6]
        \<lparr>m_cnt = 0, m_min = 0, m_max = 0, m_sum = 0, m_tsdb = Some file_0_100,
         m_tstamp = 0,
         rollup_points = [\<lparr>rp_tsdb = file_0_100, rp_mid = 7, rp_tid = 3, rp_tstamp = 0,
                           rp_cnt = 2, rp_min = 0, rp_max = 5, rp_sum = 8\<rparr>]\<rparr>) =
     Inr \<lparr>m_cnt = 0, m_min = 0, m_max = 0, m_sum = 0, m_tsdb = Some file_0_100,
          m_tstamp = 0,
          rollup_points = [\<lparr>rp_tsdb = file_0_100, rp_mid = 7, rp_tid = 3, rp_tstamp = 0,
                            rp_cnt = 2, rp_min = 0, rp_max = 5, rp_sum = 8\<rparr>,
                           \<lparr>rp_tsdb = file_0_100, rp_mid = 7, rp_tid = 3, rp_tstamp = 0,
                            rp_cnt = 2, rp_min = 0, rp_max = 6, rp_sum = 10\<rparr>]\<rparr>"
proof -
  let ?s1 = "\<lparr>m_cnt = 1, m_min = 0, m_max = 3, m_sum = 3, m_tsdb = Some file_0_100,
              m_tstamp = 0, rollup_points = []\<rparr>"
  let ?s2 = "\<lparr>m_cnt = 2, m_min = 0, m_max = 5, m_sum = 8, m_tsdb = Some file_0_100,
              m_tstamp = 0, rollup_points = []\<rparr>"
  let ?s3 = "\<lparr>m_cnt = 0, m_min = 0, m_max = 0, m_sum = 0, m_tsdb = Some file_0_100,
              m_tstamp = 0,
              rollup_points = [\<lparr>rp_tsdb = file_0_100, rp_mid = 7, rp_tid = 3, rp_tstamp = 0,
                                rp_cnt = 2, rp_min = 0, rp_max = 5, rp_sum = 8\<rparr>]\<rparr>"
  have e1: "RollupManager_add_data_point file_0_100 7 3 (0, 3) RollupManager_new = Some (Inr ?s1)"
    by (simp add: RollupManager_add_data_point_def RollupManager_new_def file_0_100_def
        accumulate_def TT_INVALID_TIMESTAMP_def)
  have e2: "RollupManager_add_data_point file_0_100 7 3 (1, 5) ?s1 = Some (Inr ?s2)"
    by (simp add: RollupManager_add_data_point_def file_0_100_def
        accumulate_def TT_INVALID_TIMESTAMP_def)
  have e3: "RollupManager_flush 7 3 ?s2 = Inr ?s3"
    by (simp add: RollupManager_flush_def TT_INVALID_TIMESTAMP_def)
  have r: "reachable ?s3"
    by (rule reachable_flush[OF reachable_add[OF reachable_add[OF reachable_new e1] e2] e3])
  have first: "m_min ?s1 = 0"
    using flushed_min_at_most_zero
      [where s = RollupManager_new and tsdb = file_0_100 and mid = 7 and tid = 3 and ts = 0
         and v = 3 and s' = ?s1, THEN conjunct2, THEN conjunct1] reachable_new e1
    by simp
  show ?thesis
    using r e1 first
      flushed_min_at_most_zero [where s = ?s3 and ?s0.0 = ?s3 and vs = "[4, 6]" and t = file_0_100
        and mid = 7 and tid = 3]
    by (simp add: accumulators_reset_def TT_INVALID_TIMESTAMP_def accumulate_def
        RollupManager_flush_def)
qed

section \<open>Properties of the configuration store\<close>

lemma set_value_no_lock_overrides [simp]:
  "m_overrides (set_value_no_lock name v c) = m_overrides c"
  by (simp add: set_value_no_lock_def split: option.splits)

lemma set_value_no_lock_same:
  "map_option as_str (get_property name (set_value_no_lock name v c)) = Some v"
  by (simp add: set_value_no_lock_def get_property_def Property_new_def Property_set_value_def
      split: option.splits)

lemma set_value_no_lock_other:
  "name' \<noteq> name \<Longrightarrow> get_property name (set_value_no_lock name' v c) = get_property name c"
  by (simp add: set_value_no_lock_def get_property_def split: option.splits)

lemma read_line_overrides [simp]:
  "m_overrides (read_line starts_with tokenize line c) = m_overrides c"
  by (simp add: read_line_def split: option.splits prod.splits)

lemma fold_read_line_overrides [simp]:
  "m_overrides (fold (read_line starts_with tokenize) lines c) = m_overrides c"
  by (induction lines arbitrary: c) simp_all

lemma fold_overrides_overrides [simp]:
  "m_overrides (fold (\<lambda>(name, property). set_value_no_lock name (as_str property)) xs c) =
     m_overrides c"
  by (induction xs arbitrary: c) (simp_all split: prod.splits)

lemma fold_overrides_sets:
  assumes "distinct (map fst xs)" "(name, p) \<in> set xs"
  shows "map_option as_str
           (get_property name
              (fold (\<lambda>(name, property). set_value_no_lock name (as_str property)) xs c)) =
         Some (as_str p)"
  using assms
proof (induction xs arbitrary: c rule: rev_induct)
  case Nil
  then show ?case by simp
next
  case (snoc x xs)
  obtain k q where x: "x = (k, q)" by (cases x)
  show ?case
  proof (cases "k = name")
    case True
    with snoc.prems x have "q = p"
      by (auto simp: rev_image_eqI)
    with True x show ?thesis
      by (simp add: set_value_no_lock_same)
  next
    case False
    with snoc.prems x have "(name, p) \<in> set xs" "distinct (map fst xs)"
      by auto
    with snoc.IH False x show ?thesis
      by (simp add: set_value_no_lock_other)
  qed
qed

lemma add_override_registers:
  "map_option as_str (get_override name (add_override name v c)) = Some v"
  by (simp add: add_override_def get_override_def Property_new_def Property_set_value_def
      split: option.splits)

lemma add_override_finite:
  "finite (Mapping.keys (m_overrides c)) \<Longrightarrow>
     finite (Mapping.keys (m_overrides (add_override name v c)))"
  by (simp add: add_override_def split: option.splits)

lemma Config_reload_override:
  assumes "finite (Mapping.keys (m_overrides c))" "get_override name c = Some p"
  shows "\<exists>c'. Config_reload starts_with tokenize (Some lines) c = (Inr False, c') \<and>
              map_option as_str (get_property name c') = Some (as_str p) \<and>
              m_overrides c' = m_overrides c"
proof -
  have "(name, p) \<in> set (Mapping.ordered_entries (m_overrides c))"
    using assms by (simp add: get_override_def Mapping.in_entriesI)
  then have "map_option as_str
           (get_property name
              (fold (\<lambda>(name, property). set_value_no_lock name (as_str property))
                 (Mapping.ordered_entries (m_overrides c))
                 (fold (read_line starts_with tokenize) lines (c\<lparr>m_properties := Mapping.empty\<rparr>)))) =
         Some (as_str p)"
    by (intro fold_overrides_sets) simp_all
  then show ?thesis
    by (simp add: Config_reload_def Let_def del: map_option_eq_Some)
qed

text \<open>
  Claim C8. \<open>add_override\<close> registers the value under the key. Whatever the state of the
  properties and whatever the lines of the config file assign to the key, a reload that
  goes through stores the override's value under the key, and leaves the overrides as they
  were, so that the same holds for the reload after it.
\<close>

theorem overrides_survive_reload:
  "(finite (Mapping.keys (m_overrides c0)) \<longrightarrow>
      finite (Mapping.keys (m_overrides (add_override name v c0))) \<and>
      map_option as_str (get_override name (add_override name v c0)) = Some v) \<and>
   (finite (Mapping.keys (m_overrides c)) \<and> get_override name c = Some p \<longrightarrow>
      (\<exists>c'. Config_reload starts_with tokenize (Some lines) c = (Inr False, c') \<and>
            map_option as_str (get_property name c') = Some (as_str p) \<and>
            m_overrides c' = m_overrides c))"
  using add_override_registers add_override_finite Config_reload_override by blast

theorem overrides_survive_reload_witness:
  "finite (Mapping.keys (m_overrides Config_static)) \<and>
   map_option as_str
     (get_property ''tsdb.page.count''
        (snd (Config_reload (\<lambda>line ch. line \<noteq> [] \<and> hd line = ch)
                (\<lambda>line ch. if ch \<in> set line
                             then Some (takeWhile (\<lambda>x. x \<noteq> ch) line,
                                        tl (dropWhile (\<lambda>x. x \<noteq> ch) line))
                             else None)
                (Some [''# pages per file'', ''tsdb.page.count=1024''])
                (add_override ''tsdb.page.count'' ''4'' Config_static)))) = Some ''4''"
proof -
  let ?sw = "\<lambda>line ch. line \<noteq> [] \<and> hd line = (ch :: char)"
  let ?tk = "\<lambda>line ch. if ch \<in> set line
                             then Some (takeWhile (\<lambda>x. x \<noteq> ch) line,
                                        tl (dropWhile (\<lambda>x. x \<noteq> (ch :: char)) line))
                             else None"
  let ?c = "add_override ''tsdb.page.count'' ''4'' Config_static"
  have fin0: "finite (Mapping.keys (m_overrides Config_static))"
    by (simp add: Config_static_def)
  from overrides_survive_reload [of Config_static "''tsdb.page.count''" "''4''"] fin0
  have fin: "finite (Mapping.keys (m_overrides ?c))"
    and reg: "map_option as_str (get_override ''tsdb.page.count'' ?c) = Some ''4''"
    by blast+
  from reg obtain p where p: "get_override ''tsdb.page.count'' ?c = Some p" "as_str p = ''4''"
    by auto
  from overrides_survive_reload [of ?c "''tsdb.page.count''" "''4''" ?c p ?sw ?tk
      "[''# pages per file'', ''tsdb.page.count=1024'']"] fin p
  show ?thesis
    using fin0 by auto
qed

section \<open>Properties of the page manager\<close>

subsection \<open>Helper lemmas\<close>

lemma get_page_info_on_disk_ok:
  "i < m_page_count f \<Longrightarrow> length (m_page_info f) = m_page_count f \<Longrightarrow>
     get_page_info_on_disk f i = Inr (m_page_info f ! i)"
  by (simp add: get_page_info_on_disk_def)

lemma init_for_disk_ok:
  "1 < sz \<Longrightarrow>
     init_for_disk g pm i h p sz ooo info =
       Inr ((page_info_init g (m_time_range pm) h)
              \<lparr>piod_out_of_order := ooo, piod_page_index := p, piod_offset := 0, piod_size := sz\<rparr>,
            info\<lparr>m_header := Some i,
                 m_time_range_info :=
                   TimeRange_init (get_to (m_time_range pm)) (get_from (m_time_range pm)),
                 m_page_mgr := Some (m_id pm),
                 m_compressor := None\<rparr>)"
  by (simp add: init_for_disk_def Let_def)

lemma get_free_page_on_disk_success:
  assumes "m_pages pm = Some f" "length (m_page_info f) = m_page_count f" "1 < g_page_size g"
    and "m_page_index f < m_actual_pg_cnt f" "m_header_index f < m_page_count f"
  shows "get_free_page_on_disk g ooo pm =
           Inr (Some
                  \<lparr>m_page_mgr = Some (m_id pm),
                   m_compressor = Some
                     \<lparr>get_version = (if ooo then 0 else m_compressor_version pm),
                      comp_start = get_from (m_time_range pm),
                      comp_page = m_page_index f * g_page_size g,
                      comp_size = g_page_size g\<rparr>,
                   m_header = Some (m_header_index f),
                   m_time_range_info =
                     TimeRange_init (get_to (m_time_range pm)) (get_from (m_time_range pm))\<rparr>,
                pm\<lparr>m_pages := Some
                  (f\<lparr>m_page_info := (m_page_info f)
                        [m_header_index f :=
                           (page_info_init g (m_time_range pm) (m_page_info f ! m_header_index f))
                             \<lparr>piod_out_of_order := ooo, piod_page_index := m_page_index f,
                              piod_offset := 0, piod_size := g_page_size g\<rparr>],
                     m_page_index := m_page_index f + 1,
                     m_header_index := m_header_index f + 1\<rparr>)\<rparr>)"
  using assms
  by (simp add: get_free_page_on_disk_def Let_def get_page_info_on_disk_ok init_for_disk_ok
      setup_compressor_def alloc_recyclable_page_info_def)

lemma get_free_page_on_disk_out_of_pages:
  assumes "m_pages pm = Some f"
    and "\<not> (m_page_index f < m_actual_pg_cnt f \<and> m_header_index f < m_page_count f)"
  shows "get_free_page_on_disk g ooo pm = Inr (None, pm)"
  unfolding get_free_page_on_disk_def Let_def
  by (simp only: assms option.case if_False)

lemma PageManager_new_NoFile:
  "PageManager_new g cv n r ident NoFile =
     Inr \<lparr>m_major_version = TT_MAJOR_VERSION g, m_minor_version = TT_MINOR_VERSION g,
          m_compacted = False, m_time_range = r, m_id = ident, m_compressor_version = cv,
          m_total_size = n * g_page_size g,
          m_pages = Some
            \<lparr>h_major_version = TT_MAJOR_VERSION g, h_minor_version = TT_MINOR_VERSION g,
             h_start_tstamp = get_from r, h_end_tstamp = get_to r, h_compacted = False,
             h_compressor_version = cv, h_millisecond = g_tstamp_resolution_ms g,
             m_page_count = n, m_page_index = calc_first_page_info_index g n,
             m_header_index = 0, m_actual_pg_cnt = n,
             m_page_info = replicate n zero_page_info\<rparr>\<rparr>"
  by (simp add: PageManager_new_def open_mmap_def init_headers_def Let_def)

lemma calc_first_le_page_count:
  assumes "0 < n" "0 < g_page_size g"
    and "sizeof_tsdb_header g + sizeof_page_info_on_disk g \<le> g_page_size g"
  shows "calc_first_page_info_index g n \<le> n"
proof -
  define S where "S = g_page_size g"
  define H where "H = sizeof_tsdb_header g"
  define P where "P = sizeof_page_info_on_disk g"
  obtain k where k: "n = Suc k"
    using assms(1) by (cases n) simp_all
  have P: "P \<le> S"
    using assms(3) by (simp add: S_def P_def)
  have HP: "H + P \<le> S"
    using assms(3) by (simp add: S_def P_def H_def)
  have "k * P \<le> k * S"
    using P by (rule mult_le_mono2)
  then have "k * P + (H + P) \<le> k * S + S"
    using HP by (rule add_mono)
  then have "n * P + H \<le> n * S"
    by (simp add: k add_ac)
  then have "n * P + H + S - 1 < n * S + S"
    using assms(2) by (simp add: S_def)
  then have "(n * P + H + S - 1) div S < n + 1"
    using assms(2) by (simp add: S_def less_mult_imp_div_less)
  then show ?thesis
    by (simp add: calc_first_page_info_index_def S_def P_def H_def)
qed

lemma get_free_page_on_disk_counters:
  assumes "m_pages pm = Some f" "get_free_page_on_disk g ooo pm = Inr (r, pm')"
  shows "(\<exists>f'. m_pages pm' = Some f' \<and> m_page_count f' = m_page_count f \<and>
               m_actual_pg_cnt f' = m_actual_pg_cnt f \<and>
               m_page_index f' = m_page_index f + 1 \<and>
               m_header_index f' = m_header_index f + 1 \<and>
               m_page_index f < m_actual_pg_cnt f \<and> m_header_index f < m_page_count f) \<or>
         pm' = pm"
proof (cases "m_page_index f < m_actual_pg_cnt f \<and> m_header_index f < m_page_count f")
  case True
  with assms show ?thesis
    by (auto simp: get_free_page_on_disk_def Let_def split: sum.splits prod.splits if_splits)
next
  case False
  with assms get_free_page_on_disk_out_of_pages[OF assms(1) False, of g ooo] show ?thesis
    by simp
qed

lemma get_free_page_for_compaction_counters:
  assumes "m_pages pm = Some f" "get_free_page_for_compaction g pm = Inr (r, pm')"
  shows "(\<exists>f'. m_pages pm' = Some f' \<and> m_page_count f' = m_page_count f \<and>
               m_actual_pg_cnt f' = m_actual_pg_cnt f \<and>
               m_page_index f' = m_page_index f + 1 \<and>
               m_header_index f' = m_header_index f + 1 \<and>
               m_page_index f < m_actual_pg_cnt f \<and> m_header_index f < m_page_count f) \<or>
         pm' = pm"
proof (cases "m_page_index f < m_actual_pg_cnt f \<and> m_header_index f < m_page_count f")
  case True
  with assms show ?thesis
    by (auto simp: get_free_page_for_compaction_def Let_def
        split: sum.splits prod.splits if_splits)
next
  case False
  have "get_free_page_for_compaction g pm = Inr (None, pm)"
    unfolding get_free_page_for_compaction_def Let_def
    by (simp only: assms(1) False option.case if_False)
  with assms show ?thesis by simp
qed

lemma list_update_numeral:
  "(x # xs)[numeral n := y] = x # xs[pred_numeral n := y]"
  by (simp add: numeral_eq_Suc)

lemma list_update_one: "(x # xs)[1 := y] = x # xs[0 := y]"
  by simp

lemma replicate_numeral: "replicate (numeral n) x = x # replicate (pred_numeral n) x"
  by (simp add: numeral_eq_Suc)

lemma last_initialized_numeral:
  "last_initialized f first (numeral n) =
     (if pred_numeral n \<ge> first then
        (case get_page_info_on_disk f (pred_numeral n) of
           Inl e \<Rightarrow> Inl e
         | Inr info \<Rightarrow>
             if piod_page_index info \<noteq> 0 then Inr (numeral n)
             else last_initialized f first (pred_numeral n))
      else Inr (numeral n))"
  using last_initialized.simps(2)[of f first "pred_numeral n"]
  by (simp only: numeral_eq_Suc[symmetric])

lemma last_initialized_one:
  "last_initialized f first 1 =
     (if 0 \<ge> first then
        (case get_page_info_on_disk f 0 of
           Inl e \<Rightarrow> Inl e
         | Inr info \<Rightarrow>
             if piod_page_index info \<noteq> 0 then Inr 1
             else last_initialized f first 0)
      else Inr 1)"
  using last_initialized.simps(2)[of f first 0]
  by (simp only: One_nat_def[symmetric])

lemmas example_defs = example_globals_def example_range_def example_file_def example_manager_def
  example_header_def example_page_info_def zero_page_info_def

lemmas page_eval = example_defs get_free_page_on_disk_def get_page_info_on_disk_def
    init_for_disk_def setup_compressor_def alloc_recyclable_page_info_def TimeRange_init_def
    PageManager_new_def open_mmap_def init_headers_def discard_uninitialized_def
    calc_first_page_info_index_def
    Let_def list_update_numeral list_update_one last_initialized_numeral last_initialized_one
    replicate_numeral

subsection \<open>The claims\<close>

text \<open>
  Claim C3. On a mapped file whose table has \<open>page_count\<close> headers,
  \<open>get_free_page_on_disk\<close> returns a page exactly when \<open>page_index < actual_pg_cnt\<close>
  and \<open>header_index < page_count\<close>: it then bumps both counters by one and the header
  it initialises, at the old \<open>header_index\<close>, names the old \<open>page_index\<close> with offset 0
  and size \<open>g_page_size\<close>; otherwise it returns no page and leaves the manager as it
  was. On a new file of 4 pages of 4096 bytes the first page handed out has header 0 and
  the physical page \<open>\<lceil>(header_size + 4 * page_info_size) / 4096\<rceil>\<close>, and after two
  allocations \<open>header_index\<close> is 2 and \<open>page_index\<close> has advanced by 2. The size
  \<open>g_page_size > 1\<close> is what the assertion of \<open>init_for_disk\<close> asks for; the bound on
  the struct sizes says that the table leaves two of the four pages for data.
\<close>

theorem get_free_page_on_disk_bounds:
  "(m_pages pm = Some f \<and> length (m_page_info f) = m_page_count f \<and> 1 < g_page_size g \<longrightarrow>
      (m_page_index f < m_actual_pg_cnt f \<and> m_header_index f < m_page_count f \<longrightarrow>
         (\<exists>info pm' f' header.
            get_free_page_on_disk g ooo pm = Inr (Some info, pm') \<and>
            m_pages pm' = Some f' \<and>
            m_page_index f' = m_page_index f + 1 \<and>
            m_header_index f' = m_header_index f + 1 \<and>
            m_header info = Some (m_header_index f) \<and>
            header = m_page_info f' ! m_header_index f \<and>
            piod_page_index header = m_page_index f \<and>
            piod_offset header = 0 \<and> piod_size header = g_page_size g)) \<and>
      (\<not> (m_page_index f < m_actual_pg_cnt f \<and> m_header_index f < m_page_count f) \<longrightarrow>
         get_free_page_on_disk g ooo pm = Inr (None, pm))) \<and>
   (g_page_size g = 4096 \<and> sizeof_tsdb_header g + 4 * sizeof_page_info_on_disk g \<le> 2 * 4096 \<longrightarrow>
      (\<exists>pm0 f0 info1 pm1 f1 info2 pm2 f2.
         PageManager_new g cv 4 r ident NoFile = Inr pm0 \<and> m_pages pm0 = Some f0 \<and>
         m_header_index f0 = 0 \<and>
         m_page_index f0 = (sizeof_tsdb_header g + 4 * sizeof_page_info_on_disk g + 4095) div 4096 \<and>
         get_free_page_on_disk g ooo1 pm0 = Inr (Some info1, pm1) \<and> m_pages pm1 = Some f1 \<and>
         m_header info1 = Some 0 \<and>
         piod_page_index (m_page_info f1 ! 0) = m_page_index f0 \<and>
         get_free_page_on_disk g ooo2 pm1 = Inr (Some info2, pm2) \<and> m_pages pm2 = Some f2 \<and>
         m_header_index f2 = 2 \<and> m_page_index f2 = m_page_index f0 + 2))"
proof (intro conjI impI)
  assume a: "m_pages pm = Some f \<and> length (m_page_info f) = m_page_count f \<and> 1 < g_page_size g"
    and c: "m_page_index f < m_actual_pg_cnt f \<and> m_header_index f < m_page_count f"
  from get_free_page_on_disk_success[of pm f g ooo] a c
  show "\<exists>info pm' f' header.
            get_free_page_on_disk g ooo pm = Inr (Some info, pm') \<and>
            m_pages pm' = Some f' \<and>
            m_page_index f' = m_page_index f + 1 \<and>
            m_header_index f' = m_header_index f + 1 \<and>
            m_header info = Some (m_header_index f) \<and>
            header = m_page_info f' ! m_header_index f \<and>
            piod_page_index header = m_page_index f \<and>
            piod_offset header = 0 \<and> piod_size header = g_page_size g"
    by simp
next
  assume a: "m_pages pm = Some f \<and> length (m_page_info f) = m_page_count f \<and> 1 < g_page_size g"
    and c: "\<not> (m_page_index f < m_actual_pg_cnt f \<and> m_header_index f < m_page_count f)"
  from a c show "get_free_page_on_disk g ooo pm = Inr (None, pm)"
    by (intro get_free_page_on_disk_out_of_pages[of pm f]) simp_all
next
  assume a: "g_page_size g = 4096 \<and>
    sizeof_tsdb_header g + 4 * sizeof_page_info_on_disk g \<le> 2 * 4096"
  define first where "first = calc_first_page_info_index g 4"
  have first: "first = (sizeof_tsdb_header g + 4 * sizeof_page_info_on_disk g + 4095) div 4096"
    using a by (simp add: first_def calc_first_page_info_index_def add.commute)
  have first2: "first \<le> 2"
    unfolding first using a by linarith
  let ?f0 = "\<lparr>h_major_version = TT_MAJOR_VERSION g, h_minor_version = TT_MINOR_VERSION g,
             h_start_tstamp = get_from r, h_end_tstamp = get_to r, h_compacted = False,
             h_compressor_version = cv, h_millisecond = g_tstamp_resolution_ms g,
             m_page_count = 4, m_page_index = first,
             m_header_index = 0, m_actual_pg_cnt = 4,
             m_page_info = replicate 4 zero_page_info\<rparr>"
  let ?pm0 = "\<lparr>m_major_version = TT_MAJOR_VERSION g, m_minor_version = TT_MINOR_VERSION g,
          m_compacted = False, m_time_range = r, m_id = ident, m_compressor_version = cv,
          m_total_size = 4 * g_page_size g, m_pages = Some ?f0\<rparr>"
  have new: "PageManager_new g cv 4 r ident NoFile = Inr ?pm0"
    by (simp add: PageManager_new_NoFile first_def)
  obtain info1 pm1 where one: "get_free_page_on_disk g ooo1 ?pm0 = Inr (Some info1, pm1)"
    and h1: "m_header info1 = Some 0"
    and pm1: "pm1 = ?pm0\<lparr>m_pages := Some
                  (?f0\<lparr>m_page_info := (m_page_info ?f0)
                        [0 := (page_info_init g r (m_page_info ?f0 ! 0))
                             \<lparr>piod_out_of_order := ooo1, piod_page_index := first,
                              piod_offset := 0, piod_size := g_page_size g\<rparr>],
                     m_page_index := first + 1,
                     m_header_index := 1\<rparr>)\<rparr>"
    using get_free_page_on_disk_success[of ?pm0 ?f0 g ooo1] a first2 by simp
  let ?f1 = "?f0\<lparr>m_page_info := (m_page_info ?f0)
                        [0 := (page_info_init g r (m_page_info ?f0 ! 0))
                             \<lparr>piod_out_of_order := ooo1, piod_page_index := first,
                              piod_offset := 0, piod_size := g_page_size g\<rparr>],
                     m_page_index := first + 1,
                     m_header_index := 1\<rparr>"
  obtain info2 pm2 f2 where two: "get_free_page_on_disk g ooo2 pm1 = Inr (Some info2, pm2)"
    and f2: "m_pages pm2 = Some f2" "m_header_index f2 = 2" "m_page_index f2 = first + 2"
    using get_free_page_on_disk_success[of pm1 ?f1 g ooo2] a first2 by (simp add: pm1)
  show "\<exists>pm0 f0 info1 pm1 f1 info2 pm2 f2.
         PageManager_new g cv 4 r ident NoFile = Inr pm0 \<and> m_pages pm0 = Some f0 \<and>
         m_header_index f0 = 0 \<and>
         m_page_index f0 = (sizeof_tsdb_header g + 4 * sizeof_page_info_on_disk g + 4095) div 4096 \<and>
         get_free_page_on_disk g ooo1 pm0 = Inr (Some info1, pm1) \<and> m_pages pm1 = Some f1 \<and>
         m_header info1 = Some 0 \<and>
         piod_page_index (m_page_info f1 ! 0) = m_page_index f0 \<and>
         get_free_page_on_disk g ooo2 pm1 = Inr (Some info2, pm2) \<and> m_pages pm2 = Some f2 \<and>
         m_header_index f2 = 2 \<and> m_page_index f2 = m_page_index f0 + 2"
    using new one h1 two f2 first
    by (intro exI[of _ ?pm0] exI[of _ ?f0] exI[of _ info1] exI[of _ pm1] exI[of _ ?f1]
        exI[of _ info2] exI[of _ pm2] exI[of _ f2]) (simp add: pm1)
qed

theorem get_free_page_on_disk_bounds_witness:
  "(\<exists>info pm' f' header.
      get_free_page_on_disk example_globals False
        (example_manager [zero_page_info, zero_page_info, zero_page_info, zero_page_info] 1 0) =
        Inr (Some info, pm') \<and>
      m_pages pm' = Some f' \<and> m_page_index f' = 2 \<and> m_header_index f' = 1 \<and>
      m_header info = Some 0 \<and> header = m_page_info f' ! 0 \<and>
      piod_page_index header = 1 \<and> piod_offset header = 0 \<and> piod_size header = 4096) \<and>
   get_free_page_on_disk example_globals False
     (example_manager [example_header 1, example_header 2, example_header 3, zero_page_info] 4 3) =
     Inr (None,
       example_manager [example_header 1, example_header 2, example_header 3, zero_page_info] 4 3) \<and>
   (\<exists>pm0 f0 info1 pm1 f1 info2 pm2 f2.
      PageManager_new example_globals 1 4 example_range 0 NoFile = Inr pm0 \<and>
      m_pages pm0 = Some f0 \<and> m_header_index f0 = 0 \<and> m_page_index f0 = 1 \<and>
      get_free_page_on_disk example_globals False pm0 = Inr (Some info1, pm1) \<and>
      m_pages pm1 = Some f1 \<and> m_header info1 = Some 0 \<and>
      piod_page_index (m_page_info f1 ! 0) = 1 \<and>
      get_free_page_on_disk example_globals True pm1 = Inr (Some info2, pm2) \<and>
      m_pages pm2 = Some f2 \<and> m_header_index f2 = 2 \<and> m_page_index f2 = 3)"
proof -
  let ?empty = "[zero_page_info, zero_page_info, zero_page_info, zero_page_info]"
  let ?full = "[example_header 1, example_header 2, example_header 3, zero_page_info]"
  note free = get_free_page_on_disk_bounds
    [where pm = "example_manager ?empty 1 0" and f = "example_file ?empty 1 0"
       and g = example_globals and ooo = False and cv = 1 and r = example_range and ident = 0
       and ?ooo1.0 = False and ?ooo2.0 = True]
  note full = get_free_page_on_disk_bounds
    [where pm = "example_manager ?full 4 3" and f = "example_file ?full 4 3"
       and g = example_globals and ooo = False and cv = 1 and r = example_range and ident = 0
       and ?ooo1.0 = False and ?ooo2.0 = True]
  have vals: "m_page_index (example_file ?empty 1 0) = 1"
    "m_header_index (example_file ?empty 1 0) = 0" "g_page_size example_globals = 4096"
    "sizeof_tsdb_header example_globals = 40" "sizeof_page_info_on_disk example_globals = 20"
    by (simp_all add: example_file_def example_globals_def)
  have mapped: "m_pages (example_manager ?empty 1 0) = Some (example_file ?empty 1 0) \<and>
      length (m_page_info (example_file ?empty 1 0)) = m_page_count (example_file ?empty 1 0) \<and>
      1 < g_page_size example_globals"
    by (simp add: example_manager_def example_file_def example_globals_def)
  have pages_left: "m_page_index (example_file ?empty 1 0) < m_actual_pg_cnt (example_file ?empty 1 0) \<and>
      m_header_index (example_file ?empty 1 0) < m_page_count (example_file ?empty 1 0)"
    by (simp add: example_file_def)
  have 1: "\<exists>info pm' f' header.
      get_free_page_on_disk example_globals False (example_manager ?empty 1 0) =
        Inr (Some info, pm') \<and>
      m_pages pm' = Some f' \<and> m_page_index f' = 2 \<and> m_header_index f' = 1 \<and>
      m_header info = Some 0 \<and> header = m_page_info f' ! 0 \<and>
      piod_page_index header = 1 \<and> piod_offset header = 0 \<and> piod_size header = 4096"
  proof -
    from free [THEN conjunct1, rule_format, OF mapped, THEN conjunct1, rule_format, OF pages_left]
    obtain info pm' f' header where
      *: "get_free_page_on_disk example_globals False (example_manager ?empty 1 0) =
            Inr (Some info, pm')"
        "m_pages pm' = Some f'"
        "m_page_index f' = m_page_index (example_file ?empty 1 0) + 1"
        "m_header_index f' = m_header_index (example_file ?empty 1 0) + 1"
        "m_header info = Some (m_header_index (example_file ?empty 1 0))"
        "header = m_page_info f' ! m_header_index (example_file ?empty 1 0)"
        "piod_page_index header = m_page_index (example_file ?empty 1 0)"
        "piod_offset header = 0" "piod_size header = g_page_size example_globals"
      by (elim exE conjE) (rule that)
    have "m_page_index f' = 2" "m_header_index f' = 1" "m_header info = Some 0"
      "header = m_page_info f' ! 0" "piod_page_index header = 1" "piod_size header = 4096"
      using *(3-7,9) by (simp_all only: vals one_add_one add_0)
    with *(1,2,8) show ?thesis
      by (intro exI[of _ info] exI[of _ pm'] exI[of _ f'] exI[of _ header] conjI)
  qed
  have mapped_full: "m_pages (example_manager ?full 4 3) = Some (example_file ?full 4 3) \<and>
      length (m_page_info (example_file ?full 4 3)) = m_page_count (example_file ?full 4 3) \<and>
      1 < g_page_size example_globals"
    by (simp add: example_manager_def example_file_def example_globals_def)
  have no_pages_left: "\<not> (m_page_index (example_file ?full 4 3) < m_actual_pg_cnt (example_file ?full 4 3) \<and>
      m_header_index (example_file ?full 4 3) < m_page_count (example_file ?full 4 3))"
    by (simp add: example_file_def)
  have 2: "get_free_page_on_disk example_globals False (example_manager ?full 4 3) =
     Inr (None, example_manager ?full 4 3)"
    using full [THEN conjunct1, rule_format, OF mapped_full, THEN conjunct2, rule_format,
        OF no_pages_left] .
  have sizes: "g_page_size example_globals = 4096 \<and>
      sizeof_tsdb_header example_globals + 4 * sizeof_page_info_on_disk example_globals \<le> 2 * 4096"
    by (simp add: example_globals_def)
  have 3: "\<exists>pm0 f0 info1 pm1 f1 info2 pm2 f2.
      PageManager_new example_globals 1 4 example_range 0 NoFile = Inr pm0 \<and>
      m_pages pm0 = Some f0 \<and> m_header_index f0 = 0 \<and> m_page_index f0 = 1 \<and>
      get_free_page_on_disk example_globals False pm0 = Inr (Some info1, pm1) \<and>
      m_pages pm1 = Some f1 \<and> m_header info1 = Some 0 \<and>
      piod_page_index (m_page_info f1 ! 0) = 1 \<and>
      get_free_page_on_disk example_globals True pm1 = Inr (Some info2, pm2) \<and>
      m_pages pm2 = Some f2 \<and> m_header_index f2 = 2 \<and> m_page_index f2 = 3"
  proof -
    from free [THEN conjunct2, rule_format, OF sizes]
    obtain pm0 f0 info1 pm1 f1 info2 pm2 f2 where
      *: "PageManager_new example_globals 1 4 example_range 0 NoFile = Inr pm0"
        "m_pages pm0 = Some f0" "m_header_index f0 = 0"
        "m_page_index f0 =
           (sizeof_tsdb_header example_globals + 4 * sizeof_page_info_on_disk example_globals + 4095)
             div 4096"
        "get_free_page_on_disk example_globals False pm0 = Inr (Some info1, pm1)"
        "m_pages pm1 = Some f1" "m_header info1 = Some 0"
        "piod_page_index (m_page_info f1 ! 0) = m_page_index f0"
        "get_free_page_on_disk example_globals True pm1 = Inr (Some info2, pm2)"
        "m_pages pm2 = Some f2" "m_header_index f2 = 2" "m_page_index f2 = m_page_index f0 + 2"
      by (elim exE conjE) (rule that)
    have first: "m_page_index f0 = 1"
      using *(4) by (simp add: vals)
    have "piod_page_index (m_page_info f1 ! 0) = 1"
      by (simp only: *(8) first)
    moreover have "m_page_index f2 = 3"
      by (simp add: *(12) first)
    ultimately show ?thesis
      using *(1,2,3,5,6,7,9,10,11) first
      by (intro exI[of _ pm0] exI[of _ f0] exI[of _ info1] exI[of _ pm1] exI[of _ f1]
          exI[of _ info2] exI[of _ pm2] exI[of _ f2] conjI)
  qed
  from 1 2 3 show ?thesis by (intro conjI)
qed

text \<open>
  Claim C7, as amended. The claim has \<open>header_index \<le> page_count\<close> and
  \<open>page_index \<le> actual_pg_cnt\<close> hold in every file just created. A new file has
  \<open>page_index\<close> at the first data page, \<open>\<lceil>(header_size + page_count * page_info_size) /
  page_size\<rceil>\<close>, and \<open>actual_pg_cnt = page_count\<close>; nothing in \<open>open_mmap\<close> compares the
  two, and with pages too small for the table the first exceeds the second (the
  counterexample below). What holds: in a new file with \<open>page_count > 0\<close>, where the file
  header and one page header fit into a page, both inequalities hold; and in every mapped
  file each of \<open>get_free_page_on_disk\<close> and \<open>get_free_page_for_compaction\<close> keeps them,
  whether it hands out a page or not.
\<close>

theorem counters_stay_in_bounds:
  "(0 < page_count \<and> 0 < g_page_size g \<and>
    sizeof_tsdb_header g + sizeof_page_info_on_disk g \<le> g_page_size g \<longrightarrow>
      (\<exists>pm f. PageManager_new g cv page_count r ident NoFile = Inr pm \<and> m_pages pm = Some f \<and>
              counters_in_bounds f)) \<and>
   (m_pages pm = Some f \<and> counters_in_bounds f \<and>
    get_free_page_on_disk g ooo pm = Inr (res, pm') \<longrightarrow>
      (\<exists>f'. m_pages pm' = Some f' \<and> counters_in_bounds f')) \<and>
   (m_pages pm = Some f \<and> counters_in_bounds f \<and>
    get_free_page_for_compaction g pm = Inr (res, pm') \<longrightarrow>
      (\<exists>f'. m_pages pm' = Some f' \<and> counters_in_bounds f'))"
proof (intro conjI impI)
  assume "0 < page_count \<and> 0 < g_page_size g \<and>
    sizeof_tsdb_header g + sizeof_page_info_on_disk g \<le> g_page_size g"
  then have "calc_first_page_info_index g page_count \<le> page_count"
    by (intro calc_first_le_page_count) simp_all
  then show "\<exists>pm f. PageManager_new g cv page_count r ident NoFile = Inr pm \<and>
      m_pages pm = Some f \<and> counters_in_bounds f"
    by (simp add: PageManager_new_NoFile counters_in_bounds_def)
next
  assume a: "m_pages pm = Some f \<and> counters_in_bounds f \<and>
    get_free_page_on_disk g ooo pm = Inr (res, pm')"
  with get_free_page_on_disk_counters[of pm f g ooo res pm']
  show "\<exists>f'. m_pages pm' = Some f' \<and> counters_in_bounds f'"
    by (auto simp: counters_in_bounds_def)
next
  assume a: "m_pages pm = Some f \<and> counters_in_bounds f \<and>
    get_free_page_for_compaction g pm = Inr (res, pm')"
  with get_free_page_for_compaction_counters[of pm f g res pm']
  show "\<exists>f'. m_pages pm' = Some f' \<and> counters_in_bounds f'"
    by (auto simp: counters_in_bounds_def)
qed

theorem counters_stay_in_bounds_witness:
  "(\<exists>pm f. PageManager_new example_globals 1 4 example_range 0 NoFile = Inr pm \<and>
           m_pages pm = Some f \<and> counters_in_bounds f) \<and>
   counters_in_bounds
     (example_file [zero_page_info, zero_page_info, zero_page_info, zero_page_info] 1 0) \<and>
   get_free_page_on_disk example_globals False
       (example_manager [zero_page_info, zero_page_info, zero_page_info, zero_page_info] 1 0) =
     Inr (Some (example_page_info 0 1),
          example_manager [example_header 1, zero_page_info, zero_page_info, zero_page_info] 2 1) \<and>
   get_free_page_for_compaction example_globals
       (example_manager [zero_page_info, zero_page_info, zero_page_info, zero_page_info] 1 0) =
     Inr (Some (example_page_info 0 1),
          example_manager [example_header 1, zero_page_info, zero_page_info, zero_page_info] 2 1) \<and>
   (\<exists>f'. m_pages (example_manager
                     [example_header 1, zero_page_info, zero_page_info, zero_page_info] 2 1) =
            Some f' \<and>
          counters_in_bounds f')"
proof -
  let ?empty = "[zero_page_info, zero_page_info, zero_page_info, zero_page_info]"
  let ?one = "[example_header 1, zero_page_info, zero_page_info, zero_page_info]"
  note inst = counters_stay_in_bounds
    [where page_count = 4 and g = example_globals and cv = 1 and r = example_range and ident = 0
       and pm = "example_manager ?empty 1 0" and f = "example_file ?empty 1 0" and ooo = False
       and res = "Some (example_page_info 0 1)" and pm' = "example_manager ?one 2 1"]
  have sizes: "0 < (4 :: nat) \<and> 0 < g_page_size example_globals \<and>
      sizeof_tsdb_header example_globals + sizeof_page_info_on_disk example_globals
        \<le> g_page_size example_globals"
    by (simp add: example_globals_def)
  have mapped: "m_pages (example_manager ?empty 1 0) = Some (example_file ?empty 1 0)"
    by (simp add: example_manager_def)
  have bounds: "counters_in_bounds (example_file ?empty 1 0)"
    by (simp add: counters_in_bounds_def example_file_def)
  have on_disk: "get_free_page_on_disk example_globals False (example_manager ?empty 1 0) =
      Inr (Some (example_page_info 0 1), example_manager ?one 2 1)"
    by (simp add: page_eval)
  have compaction: "get_free_page_for_compaction example_globals (example_manager ?empty 1 0) =
      Inr (Some (example_page_info 0 1), example_manager ?one 2 1)"
    by (simp add: page_eval get_free_page_for_compaction_def)
  have 1: "\<exists>pm f. PageManager_new example_globals 1 4 example_range 0 NoFile = Inr pm \<and>
      m_pages pm = Some f \<and> counters_in_bounds f"
    using inst [THEN conjunct1, rule_format, OF sizes] .
  have 2: "\<exists>f'. m_pages (example_manager ?one 2 1) = Some f' \<and> counters_in_bounds f'"
    using inst [THEN conjunct2, THEN conjunct1, rule_format, OF conjI [OF mapped conjI [OF bounds on_disk]]] .
  have 3: "\<exists>f'. m_pages (example_manager ?one 2 1) = Some f' \<and> counters_in_bounds f'"
    using inst [THEN conjunct2, THEN conjunct2, rule_format, OF conjI [OF mapped conjI [OF bounds compaction]]] .
  from 1 bounds on_disk compaction 2 show ?thesis
    by (intro conjI)
qed

text \<open>
  Claim C7 as stated fails: with 2 pages of 32 bytes, a file header of 40 bytes and page
  headers of 20 bytes, the first data page is \<open>\<lceil>80 / 32\<rceil> = 3\<close>, so that the new file
  has \<open>page_index = 3\<close> above \<open>actual_pg_cnt = 2\<close>.
\<close>

theorem new_file_of_small_pages_out_of_bounds:
  "PageManager_new (example_globals\<lparr>g_page_size := 32\<rparr>) 1 2 example_range 0 NoFile =
     Inr \<lparr>m_major_version = 0, m_minor_version = 4, m_compacted = False,
          m_time_range = example_range, m_id = 0, m_compressor_version = 1,
          m_total_size = 64,
          m_pages = Some
            \<lparr>h_major_version = 0, h_minor_version = 4, h_start_tstamp = 0,
             h_end_tstamp = 3600, h_compacted = False, h_compressor_version = 1,
             h_millisecond = False, m_page_count = 2, m_page_index = 3,
             m_header_index = 0, m_actual_pg_cnt = 2,
             m_page_info = [zero_page_info, zero_page_info]\<rparr>\<rparr> \<and>
   \<not> counters_in_bounds
       \<lparr>h_major_version = 0, h_minor_version = 4, h_start_tstamp = 0,
        h_end_tstamp = 3600, h_compacted = False, h_compressor_version = 1,
        h_millisecond = False, m_page_count = 2, m_page_index = 3,
        m_header_index = 0, m_actual_pg_cnt = 2,
        m_page_info = [zero_page_info, zero_page_info]\<rparr>"
  by (simp add: PageManager_new_NoFile example_globals_def example_range_def
      calc_first_page_info_index_def replicate_numeral counters_in_bounds_def)

text \<open>
  Claim C6. A call of \<open>get_free_page_for_compaction\<close> that finds pages left and at
  least one header allocated looks at the header \<open>prev\<close> before the new one: with at
  least 12 bytes behind \<open>prev\<close> in its page, the new header names the page of \<open>prev\<close>
  at the offset where \<open>prev\<close> ends, and still ends within the page; otherwise it names
  the page after that of \<open>prev\<close>, at offset 0. \<open>prev\<close> is taken to end within its page.
\<close>

theorem compaction_packs_behind_previous_header:
  assumes mapped: "m_pages pm = Some f"
    and table: "length (m_page_info f) = m_page_count f"
    and page_size: "1 < g_page_size g"
    and free: "m_page_index f < m_actual_pg_cnt f" "m_header_index f < m_page_count f"
    and allocated: "0 < m_header_index f"
    and prev: "prev = m_page_info f ! (m_header_index f - 1)"
    and prev_fits: "piod_offset prev + piod_size prev \<le> g_page_size g"
  shows "\<exists>info pm' f' header.
           get_free_page_for_compaction g pm = Inr (Some info, pm') \<and>
           m_pages pm' = Some f' \<and>
           m_header info = Some (m_header_index f) \<and>
           header = m_page_info f' ! m_header_index f \<and>
           (if 12 \<le> g_page_size g - (piod_offset prev + piod_size prev)
            then piod_page_index header = piod_page_index prev \<and>
                 piod_offset header = piod_offset prev + piod_size prev \<and>
                 piod_offset header + piod_size header \<le> g_page_size g
            else piod_page_index header = piod_page_index prev + 1 \<and>
                 piod_offset header = 0)"
proof -
  define header1 where "header1 =
    (page_info_init g (m_time_range pm) (m_page_info f ! m_header_index f))
      \<lparr>piod_out_of_order := False, piod_page_index := m_page_index f,
       piod_offset := 0, piod_size := g_page_size g\<rparr>"
  define info1 where "info1 =
    alloc_recyclable_page_info
      \<lparr>m_header := Some (m_header_index f),
       m_time_range_info := TimeRange_init (get_to (m_time_range pm)) (get_from (m_time_range pm)),
       m_page_mgr := Some (m_id pm), m_compressor := None\<rparr>"
  let ?f1 = "f\<lparr>m_page_info := (m_page_info f)[m_header_index f := header1],
              m_page_index := m_page_index f + 1,
              m_header_index := m_header_index f + 1\<rparr>"
  let ?offset = "piod_offset prev + piod_size prev"
  let ?header2 = "if g_page_size g - ?offset \<ge> 12 then
       header1\<lparr>piod_page_index := piod_page_index prev, piod_offset := ?offset,
               piod_size := g_page_size g - ?offset\<rparr>
     else header1\<lparr>piod_page_index := piod_page_index prev + 1\<rparr>"
  let ?f2 = "?f1\<lparr>m_page_info := (m_page_info ?f1)[m_header_index f := ?header2]\<rparr>"
  have here: "get_page_info_on_disk f (m_header_index f) = Inr (m_page_info f ! m_header_index f)"
    using free table by (simp add: get_page_info_on_disk_ok)
  have init: "init_for_disk g pm (m_header_index f) (m_page_info f ! m_header_index f)
                (m_page_index f) (g_page_size g) False alloc_recyclable_page_info =
              Inr (header1, info1)"
    using page_size by (simp add: init_for_disk_ok header1_def info1_def)
  have before: "get_page_info_on_disk ?f1 (m_header_index f - 1) = Inr prev"
    using free table allocated
    by (simp add: get_page_info_on_disk_def prev)
  have run: "get_free_page_for_compaction g pm =
      Inr (Some (setup_compressor g ?header2 (m_time_range pm) (m_compressor_version pm) info1),
           pm\<lparr>m_pages := Some ?f2\<rparr>)"
    unfolding get_free_page_for_compaction_def Let_def
    by (simp only: mapped option.case free simp_thms if_True here sum.case init prod.case
        allocated before)
  have at: "m_page_info ?f2 ! m_header_index f = ?header2"
    using free table by simp
  have packed: "if 12 \<le> g_page_size g - ?offset
          then piod_page_index ?header2 = piod_page_index prev \<and>
               piod_offset ?header2 = ?offset \<and>
               piod_offset ?header2 + piod_size ?header2 \<le> g_page_size g
          else piod_page_index ?header2 = piod_page_index prev + 1 \<and> piod_offset ?header2 = 0"
    using prev_fits by (simp add: header1_def)
  have hdr: "m_header (setup_compressor g ?header2 (m_time_range pm) (m_compressor_version pm) info1) =
        Some (m_header_index f)"
    by (simp add: setup_compressor_def info1_def)
  have packed': "if 12 \<le> g_page_size g - ?offset
          then piod_page_index (m_page_info ?f2 ! m_header_index f) = piod_page_index prev \<and>
               piod_offset (m_page_info ?f2 ! m_header_index f) = ?offset \<and>
               piod_offset (m_page_info ?f2 ! m_header_index f) +
                 piod_size (m_page_info ?f2 ! m_header_index f) \<le> g_page_size g
          else piod_page_index (m_page_info ?f2 ! m_header_index f) = piod_page_index prev + 1 \<and>
               piod_offset (m_page_info ?f2 ! m_header_index f) = 0"
    using packed by (simp only: at)
  have "get_free_page_for_compaction g pm =
          Inr (Some (setup_compressor g ?header2 (m_time_range pm) (m_compressor_version pm) info1),
               pm\<lparr>m_pages := Some ?f2\<rparr>) \<and>
        m_pages (pm\<lparr>m_pages := Some ?f2\<rparr>) = Some ?f2 \<and>
        m_header (setup_compressor g ?header2 (m_time_range pm) (m_compressor_version pm) info1) =
          Some (m_header_index f) \<and>
        m_page_info ?f2 ! m_header_index f = m_page_info ?f2 ! m_header_index f \<and>
        (if 12 \<le> g_page_size g - ?offset
          then piod_page_index (m_page_info ?f2 ! m_header_index f) = piod_page_index prev \<and>
               piod_offset (m_page_info ?f2 ! m_header_index f) = ?offset \<and>
               piod_offset (m_page_info ?f2 ! m_header_index f) +
                 piod_size (m_page_info ?f2 ! m_header_index f) \<le> g_page_size g
          else piod_page_index (m_page_info ?f2 ! m_header_index f) = piod_page_index prev + 1 \<and>
               piod_offset (m_page_info ?f2 ! m_header_index f) = 0)"
    using run hdr packed' by (intro conjI) simp_all
  then show ?thesis
    by (intro exI)
qed

theorem compaction_packs_behind_previous_header_witness:
  "(\<exists>info pm' f' header.
      get_free_page_for_compaction example_globals
        (example_manager
           [(example_header 1)\<lparr>piod_size := 800\<rparr>, zero_page_info, zero_page_info, zero_page_info]
           2 1) = Inr (Some info, pm') \<and>
      m_pages pm' = Some f' \<and> m_header info = Some 1 \<and> header = m_page_info f' ! 1 \<and>
      piod_page_index header = 1 \<and> piod_offset header = 800 \<and>
      piod_offset header + piod_size header \<le> 4096) \<and>
   (\<exists>info pm' f' header.
      get_free_page_for_compaction example_globals
        (example_manager [example_header 1, zero_page_info, zero_page_info, zero_page_info] 2 1) =
        Inr (Some info, pm') \<and>
      m_pages pm' = Some f' \<and> m_header info = Some 1 \<and> header = m_page_info f' ! 1 \<and>
      piod_page_index header = 2 \<and> piod_offset header = 0)"
proof -
  let ?part = "[(example_header 1)\<lparr>piod_size := 800\<rparr>, zero_page_info, zero_page_info,
                zero_page_info]"
  let ?whole = "[example_header 1, zero_page_info, zero_page_info, zero_page_info]"
  have g: "g_page_size example_globals = 4096"
    by (simp add: example_globals_def)
  have part: "m_header_index (example_file ?part 2 1) = 1"
    "piod_page_index ((example_header 1)\<lparr>piod_size := 800\<rparr>) = 1"
    "piod_offset ((example_header 1)\<lparr>piod_size := 800\<rparr>) +
       piod_size ((example_header 1)\<lparr>piod_size := 800\<rparr>) = 800"
    by (simp_all add: example_file_def example_header_def zero_page_info_def)
  have whole: "m_header_index (example_file ?whole 2 1) = 1"
    "piod_page_index (example_header 1) = 1"
    "piod_offset (example_header 1) + piod_size (example_header 1) = 4096"
    by (simp_all add: example_file_def example_header_def zero_page_info_def)
  from compaction_packs_behind_previous_header
    [of "example_manager ?part 2 1" "example_file ?part 2 1" example_globals
        "(example_header 1)\<lparr>piod_size := 800\<rparr>"]
  have "\<exists>info pm' f' header.
      get_free_page_for_compaction example_globals (example_manager ?part 2 1) =
        Inr (Some info, pm') \<and>
      m_pages pm' = Some f' \<and> m_header info = Some 1 \<and> header = m_page_info f' ! 1 \<and>
      (if 12 \<le> (4096 :: nat) - 800
       then piod_page_index header = 1 \<and> piod_offset header = 800 \<and>
            piod_offset header + piod_size header \<le> 4096
       else piod_page_index header = 1 + 1 \<and> piod_offset header = 0)"
    unfolding g part
    by (simp add: example_manager_def example_file_def example_header_def zero_page_info_def)
  then have 1: "\<exists>info pm' f' header.
      get_free_page_for_compaction example_globals (example_manager ?part 2 1) =
        Inr (Some info, pm') \<and>
      m_pages pm' = Some f' \<and> m_header info = Some 1 \<and> header = m_page_info f' ! 1 \<and>
      piod_page_index header = 1 \<and> piod_offset header = 800 \<and>
      piod_offset header + piod_size header \<le> 4096"
    by simp
  from compaction_packs_behind_previous_header
    [of "example_manager ?whole 2 1" "example_file ?whole 2 1" example_globals "example_header 1"]
  have "\<exists>info pm' f' header.
      get_free_page_for_compaction example_globals (example_manager ?whole 2 1) =
        Inr (Some info, pm') \<and>
      m_pages pm' = Some f' \<and> m_header info = Some 1 \<and> header = m_page_info f' ! 1 \<and>
      (if 12 \<le> (4096 :: nat) - 4096
       then piod_page_index header = 1 \<and> piod_offset header = 4096 \<and>
            piod_offset header + piod_size header \<le> 4096
       else piod_page_index header = 1 + 1 \<and> piod_offset header = 0)"
    unfolding g whole
    by (simp add: example_manager_def example_file_def example_header_def zero_page_info_def)
  then have 2: "\<exists>info pm' f' header.
      get_free_page_for_compaction example_globals (example_manager ?whole 2 1) =
        Inr (Some info, pm') \<and>
      m_pages pm' = Some f' \<and> m_header info = Some 1 \<and> header = m_page_info f' ! 1 \<and>
      piod_page_index header = 2 \<and> piod_offset header = 0"
    by (simp add: numeral_2_eq_2)
  from 1 2 show ?thesis by (rule conjI)
qed

text \<open>
  Claim C10. \<open>PageInfo::add_data_point\<close> on a \<open>PageInfo\<close> without compressor returns
  false and changes neither the \<open>PageInfo\<close>, its time range included, nor the page-info
  table. The views that \<open>get_the_page_on_disk\<close> produces through \<open>init_from_disk\<close>
  have no compressor.
\<close>

theorem add_data_point_without_compressor:
  "(m_compressor info = None \<longrightarrow>
      PageInfo_add_data_point compress add_time tstamp v (info, headers) = (False, info, headers)) \<and>
   (get_the_page_on_disk pm header_index = Inr (Some view) \<longrightarrow>
      m_compressor view = None \<and>
      PageInfo_add_data_point compress add_time tstamp v (view, headers) = (False, view, headers))"
proof -
  have none: "PageInfo_add_data_point compress add_time tstamp v (x, headers) = (False, x, headers)"
    if "m_compressor x = None" for x
    using that by (simp add: PageInfo_add_data_point_def)
  have view: "m_compressor view = None"
    if "get_the_page_on_disk pm header_index = Inr (Some view)"
    using that
    by (auto simp: get_the_page_on_disk_def init_from_disk_def Let_def
        split: option.splits if_splits sum.splits)
  from none view show ?thesis by blast
qed

theorem add_data_point_without_compressor_witness:
  "get_the_page_on_disk
       (example_manager [example_header 1, zero_page_info, zero_page_info, zero_page_info] 2 1) 0 =
     Inr (Some \<lparr>m_page_mgr = Some 0, m_compressor = None, m_header = Some 0,
                m_time_range_info = \<lparr>get_from = 0, get_to = 0\<rparr>\<rparr>) \<and>
   PageInfo_add_data_point (\<lambda>c t x. (True, c)) (\<lambda>t r. r\<lparr>get_to := t\<rparr>) 1000 1.5
       (\<lparr>m_page_mgr = Some 0, m_compressor = None, m_header = Some 0,
         m_time_range_info = \<lparr>get_from = 0, get_to = 0\<rparr>\<rparr>,
        [example_header 1, zero_page_info, zero_page_info, zero_page_info]) =
     (False,
      \<lparr>m_page_mgr = Some 0, m_compressor = None, m_header = Some 0,
        m_time_range_info = \<lparr>get_from = 0, get_to = 0\<rparr>\<rparr>,
      [example_header 1, zero_page_info, zero_page_info, zero_page_info])"
proof -
  let ?one = "[example_header 1, zero_page_info, zero_page_info, zero_page_info]"
  let ?view = "\<lparr>m_page_mgr = Some 0, m_compressor = None, m_header = Some 0,
                 m_time_range_info = \<lparr>get_from = 0, get_to = 0\<rparr>\<rparr>"
  have view: "get_the_page_on_disk (example_manager ?one 2 1) 0 = Inr (Some ?view)"
    by (simp add: get_the_page_on_disk_def init_from_disk_def contains_def page_eval)
  from add_data_point_without_compressor
    [where pm = "example_manager ?one 2 1" and header_index = 0 and view = ?view
       and compress = "\<lambda>c t x. (True, c)" and add_time = "\<lambda>t r. r\<lparr>get_to := t\<rparr>"
       and tstamp = 1000 and v = "1.5" and headers = ?one and info = ?view,
     THEN conjunct2, rule_format, OF view]
  have "PageInfo_add_data_point (\<lambda>c t x. (True, c)) (\<lambda>t r. r\<lparr>get_to := t\<rparr>) 1000 1.5
      (?view, ?one) = (False, ?view, ?one)"
    by (rule conjunct2)
  with view show ?thesis by (rule conjI)
qed

text \<open>
  Claim C2. The claim has the constructor leave \<open>page_index\<close> alone when every reserved
  header is initialised, and otherwise roll it back so that the next allocation takes the
  first header that was not persisted. The loop of the constructor reads the page-info
  table at the indices of physical pages, from \<open>page_index - 1\<close> down, where the table is
  indexed by \<open>header_index\<close>. In a new file of 4 pages, three allocations leave the
  headers for the pages 1, 2, 3 and \<open>page_index = 4\<close>, \<open>header_index = 3\<close>. Opening that file
  again sets \<open>page_index\<close> to 3 though no header is uninitialised, and the next allocation
  hands out page 3 a second time. With the third header zeroed, opening sets \<open>page_index\<close>
  to 2 and leaves \<open>header_index\<close> at 3: the next allocation takes the fourth header and
  page 2, which the second header names.
\<close>

theorem reopen_rolls_back_initialized_pages:
  "PageManager_new example_globals 1 4 example_range 0 NoFile =
     Inr (example_manager [zero_page_info, zero_page_info, zero_page_info, zero_page_info] 1 0) \<and>
   get_free_page_on_disk example_globals False
       (example_manager [zero_page_info, zero_page_info, zero_page_info, zero_page_info] 1 0) =
     Inr (Some (example_page_info 0 1),
          example_manager [example_header 1, zero_page_info, zero_page_info, zero_page_info] 2 1) \<and>
   get_free_page_on_disk example_globals False
       (example_manager [example_header 1, zero_page_info, zero_page_info, zero_page_info] 2 1) =
     Inr (Some (example_page_info 1 2),
          example_manager [example_header 1, example_header 2, zero_page_info, zero_page_info] 3 2) \<and>
   get_free_page_on_disk example_globals False
       (example_manager [example_header 1, example_header 2, zero_page_info, zero_page_info] 3 2) =
     Inr (Some (example_page_info 2 3),
          example_manager [example_header 1, example_header 2, example_header 3, zero_page_info] 4 3) \<and>
   PageManager_new example_globals 1 4 example_range 0
       (File 16384
          (example_file [example_header 1, example_header 2, example_header 3, zero_page_info] 4 3)) =
     Inr (example_manager [example_header 1, example_header 2, example_header 3, zero_page_info] 3 3) \<and>
   get_free_page_on_disk example_globals False
       (example_manager [example_header 1, example_header 2, example_header 3, zero_page_info] 3 3) =
     Inr (Some (example_page_info 3 3),
          example_manager [example_header 1, example_header 2, example_header 3, example_header 3] 4 4) \<and>
   PageManager_new example_globals 1 4 example_range 0
       (File 16384
          (example_file [example_header 1, example_header 2, zero_page_info, zero_page_info] 4 3)) =
     Inr (example_manager [example_header 1, example_header 2, zero_page_info, zero_page_info] 2 3) \<and>
   get_free_page_on_disk example_globals False
       (example_manager [example_header 1, example_header 2, zero_page_info, zero_page_info] 2 3) =
     Inr (Some (example_page_info 3 2),
          example_manager [example_header 1, example_header 2, zero_page_info, example_header 2] 3 4)"
  by (intro conjI) (simp_all add: page_eval)

end
